theory Spec2Isabelle
  imports Main "HOL-Library.Word" "HOL-Library.Sublist" "HOL-Library.AList"
    "HOL-Library.Multiset"
begin

section \<open>JavaScript strings and values\<close>

text \<open>
  A JavaScript string is a sequence of UTF-16 code units. The two scripts of
  \<^verbatim>\<open>assets/js/github-metrics.js\<close> use regular expressions without the \<^verbatim>\<open>u\<close> flag, which
  work code unit by code unit, so a string is modelled as a list of 16-bit words.
  \<open>js\<close> embeds an ASCII literal of the source.
\<close>

type_synonym codeunit = "16 word"
type_synonym jsstring = "codeunit list"

definition cu :: "char \<Rightarrow> codeunit" where
  "cu c = of_nat (of_char c)"

definition js :: "string \<Rightarrow> jsstring" where
  "js s = map cu s"

text \<open>
  The values the scripts handle: what \<^verbatim>\<open>getAttribute\<close> returns (a string or null), the
  arguments of the test cases of the specification, and the values \<^verbatim>\<open>response.json()\<close>
  produces. \<open>Number n\<close> is the Number whose value is the integer \<open>n\<close>.
\<close>

datatype jsval =
    Undefined
  | Null
  | Boolean bool
  | Number int
  | String jsstring
  | Array "jsval list"
  | Object "(jsstring \<times> jsval) list"

fun ToBoolean :: "jsval \<Rightarrow> bool" where
  "ToBoolean Undefined = False"
| "ToBoolean Null = False"
| "ToBoolean (Boolean b) = b"
| "ToBoolean (Number n) = (n \<noteq> 0)"
| "ToBoolean (String s) = (s \<noteq> [])"
| "ToBoolean (Array xs) = True"
| "ToBoolean (Object ps) = True"

fun typeof :: "jsval \<Rightarrow> string" where
  "typeof Undefined = ''undefined''"
| "typeof Null = ''object''"
| "typeof (Boolean b) = ''boolean''"
| "typeof (Number n) = ''number''"
| "typeof (String s) = ''string''"
| "typeof (Array xs) = ''object''"
| "typeof (Object ps) = ''object''"

section \<open>Regular expressions\<close>

text \<open>
  A character class is a list of ranges and single characters, possibly negated, as
  written between the brackets of the source.
\<close>

datatype class_item = Range char char | Single char

fun item_matches :: "class_item \<Rightarrow> codeunit \<Rightarrow> bool" where
  "item_matches (Range lo hi) c = (cu lo \<le> c \<and> c \<le> cu hi)"
| "item_matches (Single x) c = (c = cu x)"

datatype charclass = Class "class_item list" | NotClass "class_item list"

fun class_matches :: "charclass \<Rightarrow> codeunit \<Rightarrow> bool" where
  "class_matches (Class items) c = list_ex (\<lambda>i. item_matches i c) items"
| "class_matches (NotClass items) c = (\<not> list_ex (\<lambda>i. item_matches i c) items)"

text \<open>
  \<^verbatim>\<open>str.replace(/[...]/g, '')\<close> for a pattern that is one character class: with the
  \<^verbatim>\<open>g\<close> flag every code unit the class matches is replaced by the empty string.
\<close>

definition replace_all_empty :: "charclass \<Rightarrow> jsstring \<Rightarrow> jsstring" where
  "replace_all_empty cl s = filter (\<lambda>c. \<not> class_matches cl c) s"

text \<open>
  The patterns of \<^verbatim>\<open>RegExp.prototype.test\<close>. \<open>matches r s\<close> decides whether the whole of
  \<open>s\<close> matches \<open>r\<close>, by derivatives: it is \<^verbatim>\<open>/^r$/.test(s)\<close>, the anchors of the source
  (without the \<^verbatim>\<open>m\<close> flag) standing for the two ends of the input.
\<close>

datatype regex =
    Zero
  | One
  | Chars charclass
  | Lit char
  | Alt regex regex
  | Seq regex regex
  | Star regex

definition Plus :: "regex \<Rightarrow> regex" where
  "Plus r = Seq r (Star r)"

fun Times :: "nat \<Rightarrow> regex \<Rightarrow> regex" where
  "Times 0 r = One"
| "Times (Suc n) r = Seq r (Times n r)"

definition AtLeast :: "nat \<Rightarrow> regex \<Rightarrow> regex" where
  "AtLeast n r = Seq (Times n r) (Star r)"

fun nullable :: "regex \<Rightarrow> bool" where
  "nullable Zero = False"
| "nullable One = True"
| "nullable (Chars cl) = False"
| "nullable (Lit x) = False"
| "nullable (Alt r s) = (nullable r \<or> nullable s)"
| "nullable (Seq r s) = (nullable r \<and> nullable s)"
| "nullable (Star r) = True"

fun deriv :: "codeunit \<Rightarrow> regex \<Rightarrow> regex" where
  "deriv c Zero = Zero"
| "deriv c One = Zero"
| "deriv c (Chars cl) = (if class_matches cl c then One else Zero)"
| "deriv c (Lit x) = (if c = cu x then One else Zero)"
| "deriv c (Alt r s) = Alt (deriv c r) (deriv c s)"
| "deriv c (Seq r s) =
     (if nullable r then Alt (Seq (deriv c r) s) (deriv c s) else Seq (deriv c r) s)"
| "deriv c (Star r) = Seq (deriv c r) (Star r)"

fun matches :: "regex \<Rightarrow> jsstring \<Rightarrow> bool" where
  "matches r [] = nullable r"
| "matches r (c # cs) = matches (deriv c r) cs"

section \<open>The contact obfuscator: sanitizer and validator\<close>

text \<open>
  \<^verbatim>\<open>function sanitizeEmailPart(str) {
    if (!str || typeof str !== 'string') { return ''; }
    return str.replace(/[^a-zA-Z0-9.\-_+]/g, '');
}\<close>
\<close>

definition sanitize_class :: charclass where
  "sanitize_class = NotClass [Range CHR ''a'' CHR ''z'', Range CHR ''A'' CHR ''Z'',
     Range CHR ''0'' CHR ''9'', Single CHR ''.'', Single CHR ''-'', Single CHR ''_'',
     Single CHR ''+'']"

definition sanitizeEmailPart :: "jsval \<Rightarrow> jsstring" where
  "sanitizeEmailPart str =
     (if \<not> ToBoolean str \<or> typeof str \<noteq> ''string'' then []
      else (case str of String s \<Rightarrow> replace_all_empty sanitize_class s | _ \<Rightarrow> []))"

text \<open>
  \<^verbatim>\<open>function isValidEmail(email) {
    if (!email || typeof email !== 'string') { return false; }
    const emailRegex = /^[a-zA-Z0-9._\-+]+@[a-zA-Z0-9.\-]+\.[a-zA-Z]{2,}$/;
    return emailRegex.test(email);
}\<close>
\<close>

definition emailRegex :: regex where
  "emailRegex =
     Seq (Plus (Chars (Class [Range CHR ''a'' CHR ''z'', Range CHR ''A'' CHR ''Z'',
            Range CHR ''0'' CHR ''9'', Single CHR ''.'', Single CHR ''_'', Single CHR ''-'',
            Single CHR ''+''])))
    (Seq (Lit CHR ''@'')
    (Seq (Plus (Chars (Class [Range CHR ''a'' CHR ''z'', Range CHR ''A'' CHR ''Z'',
            Range CHR ''0'' CHR ''9'', Single CHR ''.'', Single CHR ''-''])))
    (Seq (Lit CHR ''.'')
         (AtLeast 2 (Chars (Class [Range CHR ''a'' CHR ''z'', Range CHR ''A'' CHR ''Z'']))))))"

definition isValidEmail :: "jsval \<Rightarrow> bool" where
  "isValidEmail email =
     (if \<not> ToBoolean email \<or> typeof email \<noteq> ''string'' then False
      else (case email of String s \<Rightarrow> matches emailRegex s | _ \<Rightarrow> False))"


section \<open>Built-in functions of the language\<close>

datatype jserror =
    URIError
  | TypeError
  | SyntaxError
  | Error jsstring

text \<open>
  \<^verbatim>\<open>encodeURI\<close> and \<^verbatim>\<open>encodeURIComponent\<close> are the abstract operation Encode of
  ECMAScript with two sets of code units left unescaped. Every other code point is
  written as the percent-escaped octets of its UTF-8 encoding, and an unpaired
  surrogate raises URIError.
\<close>

definition hexDigit :: "nat \<Rightarrow> codeunit" where
  "hexDigit n = (if n < 10 then cu CHR ''0'' + of_nat n else cu CHR ''A'' + of_nat (n - 10))"

definition percentEncode :: "nat \<Rightarrow> jsstring" where
  "percentEncode octet = [cu CHR ''%'', hexDigit (octet div 16), hexDigit (octet mod 16)]"

definition utf8Encode :: "nat \<Rightarrow> nat list" where
  "utf8Encode cp =
     (if cp < 0x80 then [cp]
      else if cp < 0x800 then [0xC0 + cp div 0x40, 0x80 + cp mod 0x40]
      else if cp < 0x10000 then
        [0xE0 + cp div 0x1000, 0x80 + (cp div 0x40) mod 0x40, 0x80 + cp mod 0x40]
      else
        [0xF0 + cp div 0x40000, 0x80 + (cp div 0x1000) mod 0x40,
         0x80 + (cp div 0x40) mod 0x40, 0x80 + cp mod 0x40])"

definition isLeadingSurrogate :: "codeunit \<Rightarrow> bool" where
  "isLeadingSurrogate c \<longleftrightarrow> 0xD800 \<le> c \<and> c \<le> 0xDBFF"

definition isTrailingSurrogate :: "codeunit \<Rightarrow> bool" where
  "isTrailingSurrogate c \<longleftrightarrow> 0xDC00 \<le> c \<and> c \<le> 0xDFFF"

definition surrogatePair :: "codeunit \<Rightarrow> codeunit \<Rightarrow> nat" where
  "surrogatePair lead trail = (unat lead - 0xD800) * 0x400 + (unat trail - 0xDC00) + 0x10000"

definition escape :: "nat \<Rightarrow> jsstring" where
  "escape cp = concat (map percentEncode (utf8Encode cp))"

definition prepend :: "jsstring \<Rightarrow> jserror + jsstring \<Rightarrow> jserror + jsstring" where
  "prepend p r = (case r of Inl e \<Rightarrow> Inl e | Inr s \<Rightarrow> Inr (p @ s))"

fun Encode :: "(codeunit \<Rightarrow> bool) \<Rightarrow> jsstring \<Rightarrow> jserror + jsstring" where
  "Encode unescaped [] = Inr []"
| "Encode unescaped [c] =
     (if unescaped c then Inr [c]
      else if isLeadingSurrogate c \<or> isTrailingSurrogate c then Inl URIError
      else Inr (escape (unat c)))"
| "Encode unescaped (c # d # ds) =
     (if unescaped c then prepend [c] (Encode unescaped (d # ds))
      else if isTrailingSurrogate c then Inl URIError
      else if isLeadingSurrogate c then
        (if isTrailingSurrogate d then prepend (escape (surrogatePair c d)) (Encode unescaped ds)
         else Inl URIError)
      else prepend (escape (unat c)) (Encode unescaped (d # ds)))"

definition uriAlpha :: "codeunit \<Rightarrow> bool" where
  "uriAlpha c \<longleftrightarrow>
     (cu CHR ''a'' \<le> c \<and> c \<le> cu CHR ''z'') \<or> (cu CHR ''A'' \<le> c \<and> c \<le> cu CHR ''Z'')"

definition DecimalDigit :: "codeunit \<Rightarrow> bool" where
  "DecimalDigit c \<longleftrightarrow> cu CHR ''0'' \<le> c \<and> c \<le> cu CHR ''9''"

definition uriMark :: "codeunit \<Rightarrow> bool" where
  \<comment> \<open>the marks \<^verbatim>\<open>- _ . ! ~ * ( )\<close> and the apostrophe, code unit 0x27\<close>
  "uriMark c \<longleftrightarrow> c \<in> set (js ''-_.!~*()'') \<or> c = 0x27"

definition uriReserved :: "codeunit \<Rightarrow> bool" where
  "uriReserved c \<longleftrightarrow> c \<in> set (js '';/?:@&=+$,'')"

definition uriUnescaped :: "codeunit \<Rightarrow> bool" where
  "uriUnescaped c \<longleftrightarrow> uriAlpha c \<or> DecimalDigit c \<or> uriMark c"

definition encodeURI :: "jsstring \<Rightarrow> jserror + jsstring" where
  "encodeURI uri = Encode (\<lambda>c. uriReserved c \<or> uriUnescaped c \<or> c = cu CHR ''#'') uri"

definition encodeURIComponent :: "jsstring \<Rightarrow> jserror + jsstring" where
  "encodeURIComponent s = Encode uriUnescaped s"

text \<open>\<^verbatim>\<open>a || b\<close>: the left operand when it is truthy, the right one otherwise.\<close>

definition or_else :: "jsval \<Rightarrow> jsval \<Rightarrow> jsval" where
  "or_else a b = (if ToBoolean a then a else b)"

text \<open>
  ToString on the values of the model. The decimal digits are the result of
  \<^verbatim>\<open>Number::toString\<close> for the safe integers, where a Number is its integer value
  exactly; a Number outside that range is not modelled and gives \<open>None\<close>.
\<close>

fun digits :: "nat \<Rightarrow> jsstring" where
  "digits n = (if n < 10 then [cu CHR ''0'' + of_nat n]
               else digits (n div 10) @ [cu CHR ''0'' + of_nat (n mod 10)])"

declare digits.simps [simp del]

definition Number_toString :: "int \<Rightarrow> jsstring option" where
  "Number_toString n =
     (if \<bar>n\<bar> \<le> 2 ^ 53 - 1
      then Some ((if n < 0 then js ''-'' else []) @ digits (nat \<bar>n\<bar>))
      else None)"

fun join :: "jsstring \<Rightarrow> jsstring list \<Rightarrow> jsstring" where
  "join sep [] = []"
| "join sep [x] = x"
| "join sep (x # y # ys) = x @ sep @ join sep (y # ys)"

fun all_some :: "'a option list \<Rightarrow> 'a list option" where
  "all_some [] = Some []"
| "all_some (None # xs) = None"
| "all_some (Some x # xs) = map_option ((#) x) (all_some xs)"

fun ToString :: "jsval \<Rightarrow> jsstring option" where
  "ToString Undefined = Some (js ''undefined'')"
| "ToString Null = Some (js ''null'')"
| "ToString (Boolean b) = Some (if b then js ''true'' else js ''false'')"
| "ToString (Number n) = Number_toString n"
| "ToString (String s) = Some s"
| "ToString (Array xs) =
     map_option (join (js '',''))
       (all_some (map (\<lambda>x. if x = Null \<or> x = Undefined then Some [] else ToString x) xs))"
| "ToString (Object ps) = Some (js ''[object Object]'')"


section \<open>The document\<close>

text \<open>
  The document is a tree of text nodes and elements. The scripts hold references to
  elements while they change the tree, so every element carries an identity, and a
  subtree that was taken out of the document stays reachable among the detached
  trees. An element also carries its namespace, which decides the interface it
  implements (\<^verbatim>\<open>HTMLElement\<close>, \<^verbatim>\<open>SVGElement\<close> or plain \<^verbatim>\<open>Element\<close>), and its
  \<^verbatim>\<open>tagName\<close>. \<open>rendered\<close> is what the layout engine reports as \<^verbatim>\<open>innerText\<close> of the
  elements that are in the document (an element it does not list renders no text);
  it is an input of the model.
\<close>

datatype namespace = HTML | SVG | MathML

datatype node =
    Text jsstring
  | Element nat namespace jsstring "(jsstring \<times> jsstring) list" "node list"

record dom =
  document :: "node list"
  detached :: "node list"
  rendered :: "(nat \<times> jsstring) list"

fun idents :: "node list \<Rightarrow> nat list" where
  "idents [] = []"
| "idents (Text s # ns) = idents ns"
| "idents (Element j sp t atts ks # ns) = j # idents ks @ idents ns"

definition all_idents :: "dom \<Rightarrow> nat list" where
  "all_idents d = idents (document d) @ idents (detached d)"

fun find_node :: "nat \<Rightarrow> node list \<Rightarrow> node option" where
  "find_node i [] = None"
| "find_node i (Text s # ns) = find_node i ns"
| "find_node i (Element j sp t atts ks # ns) =
     (if i = j then Some (Element j sp t atts ks)
      else (case find_node i ks of Some n \<Rightarrow> Some n | None \<Rightarrow> find_node i ns))"

definition lookup :: "dom \<Rightarrow> nat \<Rightarrow> node option" where
  "lookup d e =
     (case find_node e (document d) of Some n \<Rightarrow> Some n | None \<Rightarrow> find_node e (detached d))"

datatype place = Top | Under nat

fun place_in :: "nat \<Rightarrow> place \<Rightarrow> node list \<Rightarrow> place option" where
  "place_in i p [] = None"
| "place_in i p (Text s # ns) = place_in i p ns"
| "place_in i p (Element j sp t atts ks # ns) =
     (if i = j then Some p
      else (case place_in i (Under j) ks of Some q \<Rightarrow> Some q | None \<Rightarrow> place_in i p ns))"

text \<open>
  The parent of a node: the Document node for a child of the document, an element, or
  null for the root of a detached tree.
\<close>

datatype parent = NoParent | DocumentParent | ElementParent nat

definition parentNode :: "dom \<Rightarrow> nat \<Rightarrow> parent" where
  "parentNode d e =
     (case place_in e Top (document d) of
        Some Top \<Rightarrow> DocumentParent
      | Some (Under p) \<Rightarrow> ElementParent p
      | None \<Rightarrow>
          (case place_in e Top (detached d) of
             Some (Under p) \<Rightarrow> ElementParent p
           | _ \<Rightarrow> NoParent))"

definition parentElement :: "dom \<Rightarrow> nat \<Rightarrow> nat option" where
  "parentElement d e = (case parentNode d e of ElementParent p \<Rightarrow> Some p | _ \<Rightarrow> None)"

fun node_tagName :: "node \<Rightarrow> jsstring" where
  "node_tagName (Text s) = []"
| "node_tagName (Element j sp t atts ks) = t"

fun node_namespace :: "node \<Rightarrow> namespace option" where
  "node_namespace (Text s) = None"
| "node_namespace (Element j sp t atts ks) = Some sp"

fun node_attributes :: "node \<Rightarrow> (jsstring \<times> jsstring) list" where
  "node_attributes (Text s) = []"
| "node_attributes (Element j sp t atts ks) = atts"

fun node_childNodes :: "node \<Rightarrow> node list" where
  "node_childNodes (Text s) = []"
| "node_childNodes (Element j sp t atts ks) = ks"

fun node_textContent :: "node \<Rightarrow> jsstring" where
  "node_textContent (Text s) = s"
| "node_textContent (Element j sp t atts ks) = concat (map node_textContent ks)"

fun is_Element :: "node \<Rightarrow> bool" where
  "is_Element (Text s) = False"
| "is_Element (Element j sp t atts ks) = True"

definition tagName :: "dom \<Rightarrow> nat \<Rightarrow> jsstring" where
  "tagName d e = (case lookup d e of Some n \<Rightarrow> node_tagName n | None \<Rightarrow> [])"

definition getAttribute :: "dom \<Rightarrow> nat \<Rightarrow> jsstring \<Rightarrow> jsval" where
  "getAttribute d e name =
     (case lookup d e of
        Some n \<Rightarrow> (case map_of (node_attributes n) name of Some v \<Rightarrow> String v | None \<Rightarrow> Null)
      | None \<Rightarrow> Null)"

definition namespaceOf :: "dom \<Rightarrow> nat \<Rightarrow> namespace option" where
  "namespaceOf d e = (case lookup d e of Some n \<Rightarrow> node_namespace n | None \<Rightarrow> None)"

text \<open>
  \<^verbatim>\<open>element.className\<close>: on an SVG element it is an \<^verbatim>\<open>SVGAnimatedString\<close> object, on
  every other element the value of the class attribute, the empty string when there
  is none. The setter of \<^verbatim>\<open>className\<close> on an HTML element takes a string: a value
  assigned to it is converted by ToString, which turns the object into
  \<^verbatim>\<open>[object SVGAnimatedString]\<close>.
\<close>

datatype class_name = ClassString jsstring | SVGAnimatedString

definition className :: "dom \<Rightarrow> nat \<Rightarrow> class_name" where
  "className d e =
     (if namespaceOf d e = Some SVG then SVGAnimatedString
      else ClassString (case getAttribute d e (js ''class'') of String v \<Rightarrow> v | _ \<Rightarrow> []))"

fun class_ToString :: "class_name \<Rightarrow> jsstring" where
  "class_ToString (ClassString v) = v"
| "class_ToString SVGAnimatedString = js ''[object SVGAnimatedString]''"

definition textContent :: "dom \<Rightarrow> nat \<Rightarrow> jsstring" where
  "textContent d e = (case lookup d e of Some n \<Rightarrow> node_textContent n | None \<Rightarrow> [])"

definition isConnected :: "dom \<Rightarrow> nat \<Rightarrow> bool" where
  "isConnected d e \<longleftrightarrow> find_node e (document d) \<noteq> None"

definition innerText :: "dom \<Rightarrow> nat \<Rightarrow> jsval" where
  \<comment> \<open>a property of \<^verbatim>\<open>HTMLElement\<close> only, undefined on any other element; an HTML
      element that is not being rendered reports its \<^verbatim>\<open>textContent\<close>\<close>
  "innerText d e =
     (if namespaceOf d e \<noteq> Some HTML then Undefined
      else if isConnected d e
        then String (case map_of (rendered d) e of Some s \<Rightarrow> s | None \<Rightarrow> [])
      else String (textContent d e))"

subsection \<open>A new element, before it is inserted\<close>

definition fresh :: "dom \<Rightarrow> nat" where
  "fresh d = Suc (fold max (all_idents d) 0)"

definition toUpperCase :: "jsstring \<Rightarrow> jsstring" where
  "toUpperCase s = map (\<lambda>c. if cu CHR ''a'' \<le> c \<and> c \<le> cu CHR ''z'' then c - 0x20 else c) s"

definition createElement :: "dom \<Rightarrow> jsstring \<Rightarrow> node" where
  \<comment> \<open>in an HTML document the \<^verbatim>\<open>tagName\<close> of an HTML element is in upper case\<close>
  "createElement d name = Element (fresh d) HTML (toUpperCase name) [] []"

fun node_setAttribute :: "jsstring \<Rightarrow> jsstring \<Rightarrow> node \<Rightarrow> node" where
  "node_setAttribute name v (Text s) = Text s"
| "node_setAttribute name v (Element j sp t atts ks) = Element j sp t (AList.update name v atts) ks"

fun node_set_textContent :: "jsstring \<Rightarrow> node \<Rightarrow> node" where
  "node_set_textContent v (Text s) = Text v"
| "node_set_textContent v (Element j sp t atts ks) =
     Element j sp t atts (if v = [] then [] else [Text v])"

subsection \<open>Changing the tree\<close>

fun update_in :: "nat \<Rightarrow> (node \<Rightarrow> node) \<Rightarrow> node list \<Rightarrow> node list" where
  "update_in i f [] = []"
| "update_in i f (Text s # ns) = Text s # update_in i f ns"
| "update_in i f (Element j sp t atts ks # ns) =
     (if i = j then f (Element j sp t atts ks) else Element j sp t atts (update_in i f ks))
     # update_in i f ns"

definition replaceChild :: "dom \<Rightarrow> node \<Rightarrow> nat \<Rightarrow> dom" where
  \<comment> \<open>\<^verbatim>\<open>old.parentNode.replaceChild(new, old)\<close>: \<open>new\<close> takes the place of \<open>old\<close>,
      which becomes the root of a detached tree\<close>
  "replaceChild d new old =
     (case lookup d old of
        None \<Rightarrow> d
      | Some n \<Rightarrow>
          d\<lparr>document := update_in old (\<lambda>_. new) (document d),
            detached := update_in old (\<lambda>_. new) (detached d) @ [n]\<rparr>)"

definition setAttribute :: "dom \<Rightarrow> nat \<Rightarrow> jsstring \<Rightarrow> jsstring \<Rightarrow> dom" where
  "setAttribute d e name v =
     d\<lparr>document := update_in e (node_setAttribute name v) (document d),
       detached := update_in e (node_setAttribute name v) (detached d)\<rparr>"

definition set_textContent :: "dom \<Rightarrow> nat \<Rightarrow> jsstring \<Rightarrow> dom" where
  \<comment> \<open>the children are replaced by one text node, or by none for the empty string;
      the elements among the old children become roots of detached trees\<close>
  "set_textContent d e v =
     (case lookup d e of
        None \<Rightarrow> d
      | Some n \<Rightarrow>
          d\<lparr>document := update_in e (node_set_textContent v) (document d),
            detached := update_in e (node_set_textContent v) (detached d)
                        @ filter is_Element (node_childNodes n)\<rparr>)"

subsection \<open>Selectors\<close>

text \<open>
  The four shapes of selector the scripts use: \<^verbatim>\<open>.name\<close>, \<^verbatim>\<open>tag[attr]...[attr]\<close>,
  \<^verbatim>\<open>tag:first-of-type\<close> and \<^verbatim>\<open>tag:last-of-type\<close>, matched against an element with the
  siblings before and after it. The result lists the matching elements in document
  order.
\<close>

datatype selector =
    ClassSelector jsstring
  | TypeAttrSelector jsstring "jsstring list"
  | FirstOfType jsstring
  | LastOfType jsstring

definition isAsciiWhitespace :: "codeunit \<Rightarrow> bool" where
  "isAsciiWhitespace c \<longleftrightarrow> c \<in> {0x09, 0x0A, 0x0C, 0x0D, 0x20}"

fun tokens :: "jsstring \<Rightarrow> jsstring \<Rightarrow> jsstring list" where
  "tokens acc [] = (if acc = [] then [] else [acc])"
| "tokens acc (c # cs) =
     (if isAsciiWhitespace c then (if acc = [] then tokens [] cs else acc # tokens [] cs)
      else tokens (acc @ [c]) cs)"

definition classList :: "node \<Rightarrow> jsstring list" where
  "classList n =
     (case map_of (node_attributes n) (js ''class'') of Some v \<Rightarrow> tokens [] v | None \<Rightarrow> [])"

definition same_type :: "jsstring \<Rightarrow> node \<Rightarrow> bool" where
  "same_type t n \<longleftrightarrow> is_Element n \<and> node_tagName n = t"

fun selects :: "selector \<Rightarrow> node list \<Rightarrow> node \<Rightarrow> node list \<Rightarrow> bool" where
  "selects (ClassSelector c) pre n post = (c \<in> set (classList n))"
| "selects (TypeAttrSelector t names) pre n post =
     (node_tagName n = toUpperCase t \<and> list_all (\<lambda>a. map_of (node_attributes n) a \<noteq> None) names)"
| "selects (FirstOfType t) pre n post =
     (node_tagName n = toUpperCase t \<and> \<not> list_ex (same_type (toUpperCase t)) pre)"
| "selects (LastOfType t) pre n post =
     (node_tagName n = toUpperCase t \<and> \<not> list_ex (same_type (toUpperCase t)) post)"

fun select_in :: "selector \<Rightarrow> node list \<Rightarrow> node list \<Rightarrow> nat list" where
  "select_in sel pre [] = []"
| "select_in sel pre (Text s # ns) = select_in sel (pre @ [Text s]) ns"
| "select_in sel pre (Element j sp t atts ks # ns) =
     (if selects sel pre (Element j sp t atts ks) ns then [j] else [])
     @ select_in sel [] ks
     @ select_in sel (pre @ [Element j sp t atts ks]) ns"

definition querySelectorAll :: "dom \<Rightarrow> selector \<Rightarrow> nat list" where
  "querySelectorAll d sel = select_in sel [] (document d)"

definition querySelector :: "dom \<Rightarrow> selector \<Rightarrow> nat option" where
  "querySelector d sel = (case querySelectorAll d sel of [] \<Rightarrow> None | e # es \<Rightarrow> Some e)"

definition element_querySelector :: "dom \<Rightarrow> nat \<Rightarrow> selector \<Rightarrow> nat option" where
  "element_querySelector d e sel =
     (case lookup d e of
        None \<Rightarrow> None
      | Some n \<Rightarrow>
          (case select_in sel [] (node_childNodes n) of [] \<Rightarrow> None | x # xs \<Rightarrow> Some x))"

subsection \<open>The page: the document, the console and the requests sent\<close>

datatype level = Log | Warn | Err

datatype arg = Str jsstring | Exn jserror

record page =
  dom :: dom
  console :: "(level \<times> arg list) list"
  requests :: "jsstring list"

definition console_warn :: "arg list \<Rightarrow> page \<Rightarrow> page" where
  "console_warn args w = w\<lparr>console := console w @ [(Warn, args)]\<rparr>"

definition console_error :: "arg list \<Rightarrow> page \<Rightarrow> page" where
  "console_error args w = w\<lparr>console := console w @ [(Err, args)]\<rparr>"


section \<open>The contact obfuscator: the three passes\<close>

text \<open>
  \<^verbatim>\<open>function getElementText(element) {
    return element.textContent || element.innerText || '';
}\<close>
\<close>

definition getElementText :: "dom \<Rightarrow> nat \<Rightarrow> jsstring" where
  \<comment> \<open>the value is a string in every case: the last operand is one\<close>
  "getElementText d element =
     (case or_else (or_else (String (textContent d element)) (innerText d element)) (String [])
      of String s \<Rightarrow> s | _ \<Rightarrow> [])"

text \<open>
  The callback of \<^verbatim>\<open>protectedEmails.forEach\<close> in \<^verbatim>\<open>processProtectedEmails\<close>. The
  only call of its \<^verbatim>\<open>try\<close> block that can raise is \<^verbatim>\<open>encodeURI\<close>; the \<^verbatim>\<open>catch\<close>
  clause logs the error.
\<close>

definition protectedEmails_each :: "nat \<Rightarrow> page \<Rightarrow> page" where
  "protectedEmails_each element w =
     (let d = dom w;
          user = sanitizeEmailPart (getAttribute d element (js ''data-user''));
          domain = sanitizeEmailPart (getAttribute d element (js ''data-domain''));
          tld = sanitizeEmailPart (getAttribute d element (js ''data-tld''))
      in if user = [] \<or> domain = [] \<or> tld = [] then
           console_warn [Str (js ''Email protection: Missing data attributes'')] w
         else
           let email = user @ js ''@'' @ domain @ js ''.'' @ tld in
           if \<not> isValidEmail (String email) then
             console_warn [Str (js ''Email protection: Invalid email format:''), Str email] w
           else
             (case parentElement d element of
                None \<Rightarrow> w
              | Some p \<Rightarrow>
                  if tagName d p = js ''A'' then w
                  else
                    (case encodeURI email of
                       Inl error \<Rightarrow>
                         console_error [Str (js ''Email protection error:''), Exn error] w
                     | Inr encoded \<Rightarrow>
                         let link = createElement d (js ''a'');
                             link = node_setAttribute (js ''href'') (js ''mailto:'' @ encoded) link;
                             link = node_setAttribute (js ''class'')
                                      (class_ToString (className d element)) link;
                             link = node_set_textContent (getElementText d element) link;
                             link = node_setAttribute (js ''aria-label'')
                                      (js ''Send email to '' @ email) link;
                             link = node_setAttribute (js ''rel'') (js ''noopener'') link
                         in (case parentNode d element of
                               NoParent \<Rightarrow> w
                             | _ \<Rightarrow> w\<lparr>dom := replaceChild d link element\<rparr>))))"

text \<open>The callback of \<^verbatim>\<open>protectedEmailLinks.forEach\<close>, which fills in an anchor in place.\<close>

definition protectedEmailLinks_each :: "nat \<Rightarrow> page \<Rightarrow> page" where
  "protectedEmailLinks_each link w =
     (let d = dom w;
          user = sanitizeEmailPart (getAttribute d link (js ''data-user''));
          domain = sanitizeEmailPart (getAttribute d link (js ''data-domain''));
          tld = sanitizeEmailPart (getAttribute d link (js ''data-tld''))
      in if user = [] \<or> domain = [] \<or> tld = [] then
           console_warn [Str (js ''Email protection: Missing data attributes in link'')] w
         else
           let email = user @ js ''@'' @ domain @ js ''.'' @ tld in
           if \<not> isValidEmail (String email) then
             console_warn
               [Str (js ''Email protection: Invalid email format in link:''), Str email] w
           else
             (case encodeURI email of
                Inl error \<Rightarrow>
                  console_error [Str (js ''Email protection link error:''), Exn error] w
              | Inr encoded \<Rightarrow>
                  let d = setAttribute d link (js ''href'') (js ''mailto:'' @ encoded);
                      d = setAttribute d link (js ''aria-label'') (js ''Send email to '' @ email);
                      d = setAttribute d link (js ''rel'') (js ''noopener'')
                  in w\<lparr>dom := d\<rparr>))"

definition processProtectedEmails :: "page \<Rightarrow> page" where
  "processProtectedEmails w =
     (let protectedEmails = querySelectorAll (dom w) (ClassSelector (js ''protected-email''));
          w = fold protectedEmails_each protectedEmails w;
          protectedEmailLinks =
            querySelectorAll (dom w)
              (TypeAttrSelector (js ''a'') [js ''data-user'', js ''data-domain'', js ''data-tld''])
      in fold protectedEmailLinks_each protectedEmailLinks w)"

text \<open>The callback of \<^verbatim>\<open>protectedTelegram.forEach\<close> in \<^verbatim>\<open>processProtectedTelegram\<close>.\<close>

definition protectedTelegram_each :: "nat \<Rightarrow> page \<Rightarrow> page" where
  "protectedTelegram_each element w =
     (let d = dom w;
          username = sanitizeEmailPart (getAttribute d element (js ''data-username''))
      in if username = [] then
           console_warn [Str (js ''Telegram protection: Missing username'')] w
         else
           (case encodeURIComponent username of
              Inl error \<Rightarrow>
                console_error [Str (js ''Telegram protection error:''), Exn error] w
            | Inr encoded \<Rightarrow>
                let link = createElement d (js ''a'');
                    link = node_setAttribute (js ''href'') (js ''https://t.me/'' @ encoded) link;
                    link = node_setAttribute (js ''class'')
                             (class_ToString (className d element)) link;
                    link = node_setAttribute (js ''target'') (js ''_blank'') link;
                    link = node_setAttribute (js ''rel'') (js ''noopener noreferrer'') link;
                    link = node_set_textContent (getElementText d element) link;
                    link = node_setAttribute (js ''aria-label'') (js ''Telegram '' @ username) link
                in (case parentNode d element of
                      NoParent \<Rightarrow> w
                    | _ \<Rightarrow> w\<lparr>dom := replaceChild d link element\<rparr>)))"

definition processProtectedTelegram :: "page \<Rightarrow> page" where
  "processProtectedTelegram w =
     (let protectedTelegram = querySelectorAll (dom w) (ClassSelector (js ''protected-telegram''))
      in fold protectedTelegram_each protectedTelegram w)"

text \<open>What the second script runs once the document is ready.\<close>

definition contact_on_ready :: "page \<Rightarrow> page" where
  "contact_on_ready w = processProtectedTelegram (processProtectedEmails w)"

section \<open>The profile statistics updater\<close>

definition GITHUB_USERNAME :: jsstring where
  "GITHUB_USERNAME = js ''pvl-k''"

definition GITHUB_API_BASE :: jsstring where
  "GITHUB_API_BASE = js ''https://api.github.com''"

text \<open>
  What the network answers to the one \<^verbatim>\<open>fetch\<close>: the promise is rejected, or fulfilled
  with a response of some status whose \<^verbatim>\<open>json()\<close> gives a value or is rejected (a
  body that is not JSON gives SyntaxError).
\<close>

datatype response = Response nat "jserror + jsval"

datatype fetch_result = Rejected jserror | Fulfilled response

definition ok :: "nat \<Rightarrow> bool" where
  "ok status \<longleftrightarrow> 200 \<le> status \<and> status \<le> 299"

text \<open>
  \<^verbatim>\<open>async function fetchGitHubData() {
    try {
      const response = await fetch(`${GITHUB_API_BASE}/users/${GITHUB_USERNAME}`);
      if (!response.ok) { throw new Error('Failed to fetch GitHub data'); }
      return await response.json();
    } catch (error) {
      console.error('Error fetching GitHub data:', error);
      return null;
    }
}\<close>
\<close>

definition fetchGitHubData_try :: "fetch_result \<Rightarrow> jserror + jsval" where
  "fetchGitHubData_try result =
     (case result of
        Rejected error \<Rightarrow> Inl error
      | Fulfilled (Response status body) \<Rightarrow>
          if \<not> ok status then Inl (Error (js ''Failed to fetch GitHub data'')) else body)"

definition fetchGitHubData :: "fetch_result \<Rightarrow> page \<Rightarrow> jsval \<times> page" where
  "fetchGitHubData result w =
     (let w = w\<lparr>requests := requests w @ [GITHUB_API_BASE @ js ''/users/'' @ GITHUB_USERNAME]\<rparr>
      in (case fetchGitHubData_try result of
            Inl error \<Rightarrow> (Null, console_error [Str (js ''Error fetching GitHub data:''), Exn error] w)
          | Inr data \<Rightarrow> (data, w)))"

text \<open>
  How a run ends: it returns, an exception escapes it, or it leaves the part of the
  language that is modelled (the string of a Number that is not a safe integer).
\<close>

datatype 'a outcome = Returns 'a | Throws jserror | Unmodelled

text \<open>
  \<^verbatim>\<open>data.followers\<close>, for a property name that no built-in prototype defines: an own
  property of an object, undefined on any other value, and TypeError on null and
  undefined. The list of an object holds its own properties, each name once.
\<close>

fun Get :: "jsval \<Rightarrow> jsstring \<Rightarrow> jserror + jsval" where
  "Get Undefined name = Inl TypeError"
| "Get Null name = Inl TypeError"
| "Get (Object ps) name = (case map_of ps name of Some v \<Rightarrow> Inr v | None \<Rightarrow> Inr Undefined)"
| "Get v name = Inr Undefined"

text \<open>
  The setter of \<^verbatim>\<open>textContent\<close>, an attribute of type \<^verbatim>\<open>DOMString?\<close>: null and undefined
  stand for the empty string, any other value for its ToString.
\<close>

definition textContent_assign :: "dom \<Rightarrow> nat \<Rightarrow> jsval \<Rightarrow> dom option" where
  "textContent_assign d e v =
     (if v = Null \<or> v = Undefined then Some (set_textContent d e [])
      else map_option (set_textContent d e) (ToString v))"

text \<open>\<^verbatim>\<open>if (target) { target.textContent = data.name; }\<close>\<close>

definition assign_if_present :: "nat option \<Rightarrow> jsval \<Rightarrow> jsstring \<Rightarrow> page \<Rightarrow> page outcome" where
  "assign_if_present target data name w =
     (case target of
        None \<Rightarrow> Returns w
      | Some e \<Rightarrow>
          (case Get data name of
             Inl error \<Rightarrow> Throws error
           | Inr v \<Rightarrow>
               (case textContent_assign (dom w) e v of
                  None \<Rightarrow> Unmodelled
                | Some d \<Rightarrow> Returns (w\<lparr>dom := d\<rparr>))))"

text \<open>
  \<^verbatim>\<open>async function updateStats() {
    const data = await fetchGitHubData();
    if (data) {
      const statsElement = document.querySelector('.sidebar-stats');
      if (statsElement) {
        const followersElement = statsElement.querySelector('strong:first-of-type');
        const followingElement = statsElement.querySelector('strong:last-of-type');
        if (followersElement) { followersElement.textContent = data.followers; }
        if (followingElement) { followingElement.textContent = data.following; }
      }
    }
}\<close>
\<close>

definition updateStats :: "fetch_result \<Rightarrow> page \<Rightarrow> page outcome" where
  "updateStats result w =
     (let (data, w) = fetchGitHubData result w in
      if ToBoolean data then
        (case querySelector (dom w) (ClassSelector (js ''sidebar-stats'')) of
           None \<Rightarrow> Returns w
         | Some statsElement \<Rightarrow>
             let followersElement =
                   element_querySelector (dom w) statsElement (FirstOfType (js ''strong''));
                 followingElement =
                   element_querySelector (dom w) statsElement (LastOfType (js ''strong''))
             in (case assign_if_present followersElement data (js ''followers'') w of
                   Returns w \<Rightarrow> assign_if_present followingElement data (js ''following'') w
                 | Throws error \<Rightarrow> Throws error
                 | Unmodelled \<Rightarrow> Unmodelled))
      else Returns w)"


section \<open>The words of the specification\<close>

text \<open>
  The character sets as the specification names them: the letters \<^verbatim>\<open>A-Z\<close> and
  \<^verbatim>\<open>a-z\<close>, the digits \<^verbatim>\<open>0-9\<close>, and the punctuation allowed in each place.
\<close>

definition letters :: "codeunit set" where
  "letters = {cu CHR ''A'' .. cu CHR ''Z''} \<union> {cu CHR ''a'' .. cu CHR ''z''}"

definition decimal_digits :: "codeunit set" where
  "decimal_digits = {cu CHR ''0'' .. cu CHR ''9''}"

definition allowed_chars :: "codeunit set" where
  "allowed_chars =
     letters \<union> decimal_digits \<union> {cu CHR ''.'', cu CHR ''-'', cu CHR ''_'', cu CHR ''+''}"

definition local_part_chars :: "codeunit set" where
  "local_part_chars =
     letters \<union> decimal_digits \<union> {cu CHR ''.'', cu CHR ''_'', cu CHR ''-'', cu CHR ''+''}"

definition domain_label_chars :: "codeunit set" where
  "domain_label_chars = letters \<union> decimal_digits \<union> {cu CHR ''.'', cu CHR ''-''}"

text \<open>
  The pattern of the email validator in the words of the specification: a local part,
  \<^verbatim>\<open>@\<close>, domain labels, a dot and a top-level domain of at least two letters.
\<close>

definition email_pattern :: "jsstring \<Rightarrow> bool" where
  "email_pattern s \<longleftrightarrow>
     (\<exists>local_part domain_labels tld.
        s = local_part @ js ''@'' @ domain_labels @ js ''.'' @ tld
        \<and> local_part \<noteq> [] \<and> set local_part \<subseteq> local_part_chars
        \<and> domain_labels \<noteq> [] \<and> set domain_labels \<subseteq> domain_label_chars
        \<and> 2 \<le> length tld \<and> set tld \<subseteq> letters)"

text \<open>The strings a pattern denotes, against which the matcher is proved correct.\<close>

inductive_set star :: "'a list set \<Rightarrow> 'a list set" for A :: "'a list set" where
  star_empty: "[] \<in> star A"
| star_step: "u \<in> A \<Longrightarrow> v \<in> star A \<Longrightarrow> u @ v \<in> star A"

fun lang :: "regex \<Rightarrow> jsstring set" where
  "lang Zero = {}"
| "lang One = {[]}"
| "lang (Chars cl) = {[c] | c. class_matches cl c}"
| "lang (Lit x) = {[cu x]}"
| "lang (Alt r s) = lang r \<union> lang s"
| "lang (Seq r s) = {u @ v | u v. u \<in> lang r \<and> v \<in> lang s}"
| "lang (Star r) = star (lang r)"

text \<open>An element identity names one element: no identity occurs twice in the trees.\<close>

definition well_formed :: "dom \<Rightarrow> bool" where
  "well_formed d \<longleftrightarrow> distinct (all_idents d)"

text \<open>
  The data of a placeholder as the passes read them: each part is the sanitized value
  of a data attribute, and the address is assembled as
  \<^verbatim>\<open>user + "@" + domain + "." + tld\<close>.
\<close>

definition sanitized :: "dom \<Rightarrow> nat \<Rightarrow> string \<Rightarrow> jsstring" where
  "sanitized d e name = sanitizeEmailPart (getAttribute d e (js name))"

definition assembled_email :: "dom \<Rightarrow> nat \<Rightarrow> jsstring" where
  "assembled_email d e =
     sanitized d e ''data-user'' @ js ''@'' @ sanitized d e ''data-domain'' @ js ''.''
       @ sanitized d e ''data-tld''"

definition email_parts_present :: "dom \<Rightarrow> nat \<Rightarrow> bool" where
  "email_parts_present d e \<longleftrightarrow>
     sanitized d e ''data-user'' \<noteq> [] \<and> sanitized d e ''data-domain'' \<noteq> []
     \<and> sanitized d e ''data-tld'' \<noteq> []"

definition email_data_ok :: "dom \<Rightarrow> nat \<Rightarrow> bool" where
  "email_data_ok d e \<longleftrightarrow>
     email_parts_present d e \<and> isValidEmail (String (assembled_email d e))"

definition telegram_data_ok :: "dom \<Rightarrow> nat \<Rightarrow> bool" where
  "telegram_data_ok d e \<longleftrightarrow> sanitized d e ''data-username'' \<noteq> []"

text \<open>
  The anchors of passes 1 and 3 and the anchor filled in by pass 2, as the
  specification describes them: the attributes in the order they are set, the class
  copied from the placeholder, and the text of the placeholder as the only child.
  The address stands in the \<^verbatim>\<open>href\<close> as it is: escaping leaves it unchanged, which
  is proved below. The telegram anchor takes the escaped user name as an argument.
\<close>

definition label_nodes :: "dom \<Rightarrow> nat \<Rightarrow> node list" where
  "label_nodes d e = (if getElementText d e = [] then [] else [Text (getElementText d e)])"

definition mailto_anchor :: "dom \<Rightarrow> nat \<Rightarrow> node" where
  "mailto_anchor d e =
     Element (fresh d) HTML (js ''A'')
       [(js ''href'', js ''mailto:'' @ assembled_email d e),
        (js ''class'', class_ToString (className d e)),
        (js ''aria-label'', js ''Send email to '' @ assembled_email d e),
        (js ''rel'', js ''noopener'')]
       (label_nodes d e)"

definition telegram_anchor :: "dom \<Rightarrow> nat \<Rightarrow> jsstring \<Rightarrow> node" where
  "telegram_anchor d e encoded =
     Element (fresh d) HTML (js ''A'')
       [(js ''href'', js ''https://t.me/'' @ encoded),
        (js ''class'', class_ToString (className d e)),
        (js ''target'', js ''_blank''),
        (js ''rel'', js ''noopener noreferrer''),
        (js ''aria-label'', js ''Telegram '' @ sanitized d e ''data-username'')]
       (label_nodes d e)"

definition filled_in :: "dom \<Rightarrow> nat \<Rightarrow> dom" where
  "filled_in d link =
     setAttribute
       (setAttribute
          (setAttribute d link (js ''href'') (js ''mailto:'' @ assembled_email d link))
          link (js ''aria-label'') (js ''Send email to '' @ assembled_email d link))
       link (js ''rel'') (js ''noopener'')"

text \<open>
  The page after the one request of the statistics updater, after a failed request,
  and the text of an element after a run.
\<close>

definition stats_url :: jsstring where
  "stats_url = GITHUB_API_BASE @ js ''/users/'' @ GITHUB_USERNAME"

definition requested :: "page \<Rightarrow> page" where
  "requested w = w\<lparr>requests := requests w @ [stats_url]\<rparr>"

definition fetch_failed :: "jserror \<Rightarrow> page \<Rightarrow> page" where
  "fetch_failed error w =
     w\<lparr>requests := requests w @ [stats_url],
       console := console w @ [(Err, [Str (js ''Error fetching GitHub data:''), Exn error])]\<rparr>"

definition set_if_present :: "nat option \<Rightarrow> jsstring \<Rightarrow> dom \<Rightarrow> dom" where
  "set_if_present target s d = (case target of None \<Rightarrow> d | Some e \<Rightarrow> set_textContent d e s)"

definition text_after :: "page outcome \<Rightarrow> nat \<Rightarrow> jsstring option" where
  "text_after r e = (case r of Returns w \<Rightarrow> Some (textContent (dom w) e) | _ \<Rightarrow> None)"

section \<open>Example pages\<close>

text \<open>
  A page with two email placeholders (the second without \<^verbatim>\<open>data-tld\<close>) and two
  anchors to fill in (the second with a top-level domain of one letter).
\<close>

definition email_page :: page where
  "email_page =
     \<lparr>dom = \<lparr>document =
        [Element 1 HTML (js ''HTML'') []
          [Element 2 HTML (js ''BODY'') []
            [Element 3 HTML (js ''P'') []
               [Text (js ''Write to ''),
                Element 4 HTML (js ''SPAN'')
                  [(js ''class'', js ''protected-email''), (js ''data-user'', js ''john<script>''),
                   (js ''data-domain'', js ''example''), (js ''data-tld'', js ''com'')]
                  [Text (js ''me'')]],
             Element 5 HTML (js ''P'') []
               [Element 6 HTML (js ''SPAN'')
                  [(js ''class'', js ''protected-email''), (js ''data-user'', js ''john''),
                   (js ''data-domain'', js ''example'')]
                  [Text (js ''me'')]],
             Element 7 HTML (js ''A'')
               [(js ''data-user'', js ''jane''), (js ''data-domain'', js ''example''),
                (js ''data-tld'', js ''org'')]
               [Text (js ''Jane'')],
             Element 8 HTML (js ''A'')
               [(js ''data-user'', js ''jane''), (js ''data-domain'', js ''example''),
                (js ''data-tld'', js ''o'')]
               [Text (js ''Jane'')]]]],
        detached = [], rendered = []\<rparr>,
      console = [], requests = []\<rparr>"

text \<open>A page with two telegram placeholders, the second without \<^verbatim>\<open>data-username\<close>.\<close>

definition telegram_page :: page where
  "telegram_page =
     \<lparr>dom = \<lparr>document =
        [Element 1 HTML (js ''HTML'') []
          [Element 2 HTML (js ''BODY'') []
            [Element 3 HTML (js ''SPAN'')
               [(js ''class'', js ''protected-telegram''), (js ''data-username'', js ''abc_123'')]
               [Text (js ''Telegram'')],
             Element 4 HTML (js ''SPAN'') [(js ''class'', js ''protected-telegram'')]
               [Text (js ''Telegram'')]]]],
        detached = [], rendered = []\<rparr>,
      console = [], requests = []\<rparr>"

text \<open>
  A telegram placeholder whose only child is a line break, for which the layout
  engine reports a line feed as the rendered text, and a telegram placeholder that
  is a \<^verbatim>\<open>text\<close> element inside an \<^verbatim>\<open>svg\<close> element.
\<close>

definition break_page :: page where
  "break_page =
     \<lparr>dom = \<lparr>document =
        [Element 1 HTML (js ''HTML'') []
          [Element 2 HTML (js ''BODY'') []
            [Element 3 HTML (js ''SPAN'')
               [(js ''class'', js ''protected-telegram''), (js ''data-username'', js ''abc_123'')]
               [Element 4 HTML (js ''BR'') [] []]]]],
        detached = [], rendered = [(3, [0x0A])]\<rparr>,
      console = [], requests = []\<rparr>"

definition svg_page :: page where
  "svg_page =
     \<lparr>dom = \<lparr>document =
        [Element 1 HTML (js ''HTML'') []
          [Element 2 HTML (js ''BODY'') []
            [Element 3 SVG (js ''svg'') []
               [Element 4 SVG (js ''text'')
                  [(js ''class'', js ''protected-telegram''),
                   (js ''data-username'', js ''abc_123'')]
                  [Text (js ''Telegram'')]]]]],
        detached = [], rendered = []\<rparr>,
      console = [], requests = []\<rparr>"

text \<open>A page with the statistics container and its two counters side by side.\<close>

definition counters_page :: page where
  "counters_page =
     \<lparr>dom = \<lparr>document =
        [Element 1 HTML (js ''HTML'') []
          [Element 2 HTML (js ''BODY'') []
            [Element 3 HTML (js ''DIV'') [(js ''class'', js ''sidebar-stats'')]
               [Element 4 HTML (js ''STRONG'') [] [Text (js ''0'')], Text (js '' followers ''),
                Element 5 HTML (js ''STRONG'') [] [Text (js ''0'')], Text (js '' following'')]]]],
        detached = [], rendered = []\<rparr>,
      console = [], requests = []\<rparr>"

text \<open>A document whose root element is itself a placeholder with valid data.\<close>

definition root_page :: page where
  "root_page =
     \<lparr>dom = \<lparr>document =
        [Element 1 HTML (js ''HTML'')
           [(js ''class'', js ''protected-email''), (js ''data-user'', js ''john''),
            (js ''data-domain'', js ''example''), (js ''data-tld'', js ''com'')]
           [Text (js ''me'')]],
        detached = [], rendered = []\<rparr>,
      console = [], requests = []\<rparr>"

text \<open>
  A statistics container in which each counter sits in a link of its own, and the
  body of the response \<^verbatim>\<open>{followers: 42, following: 7}\<close>.
\<close>

definition stats_page :: page where
  "stats_page =
     \<lparr>dom = \<lparr>document =
        [Element 1 HTML (js ''HTML'') []
          [Element 2 HTML (js ''BODY'') []
            [Element 3 HTML (js ''DIV'') [(js ''class'', js ''sidebar-stats'')]
               [Element 4 HTML (js ''A'') [(js ''href'', js ''#followers'')]
                  [Element 5 HTML (js ''STRONG'') [] [Text (js ''0'')], Text (js '' followers'')],
                Element 6 HTML (js ''A'') [(js ''href'', js ''#following'')]
                  [Element 7 HTML (js ''STRONG'') [] [Text (js ''0'')], Text (js '' following'')]]]]],
        detached = [], rendered = []\<rparr>,
      console = [], requests = []\<rparr>"

definition profile :: jsval where
  "profile = Object [(js ''followers'', Number 42), (js ''following'', Number 7)]"

section \<open>The matcher decides the language of a pattern\<close>

lemma nullable_lang: "nullable r \<longleftrightarrow> [] \<in> lang r"
  by (induction r) (auto intro: star_empty)

lemma star_cons:
  "c # w \<in> star A \<longleftrightarrow> (\<exists>u v. w = u @ v \<and> c # u \<in> A \<and> v \<in> star A)"
proof
  assume "c # w \<in> star A"
  then show "\<exists>u v. w = u @ v \<and> c # u \<in> A \<and> v \<in> star A"
  proof (induction "c # w" rule: star.induct)
    case (star_step u v)
    show ?case
    proof (cases u)
      case Nil
      with star_step show ?thesis by simp
    next
      case (Cons a u')
      with star_step show ?thesis by auto
    qed
  qed
next
  assume "\<exists>u v. w = u @ v \<and> c # u \<in> A \<and> v \<in> star A"
  then obtain u v where "w = u @ v" "c # u \<in> A" "v \<in> star A" by blast
  then show "c # w \<in> star A" using star_step [of "c # u" A v] by simp
qed

lemma deriv_lang: "w \<in> lang (deriv c r) \<longleftrightarrow> c # w \<in> lang r"
proof (induction r arbitrary: w)
  case (Seq r s)
  show ?case
  proof (cases "nullable r")
    case True
    then have "[] \<in> lang r" by (simp add: nullable_lang)
    then show ?thesis using Seq True
      by (auto simp: Cons_eq_append_conv)
  next
    case False
    then have "[] \<notin> lang r" by (simp add: nullable_lang)
    then show ?thesis using Seq False
      by (auto simp: Cons_eq_append_conv) 
  qed
next
  case (Star r)
  then show ?case by (auto simp: star_cons)
qed auto

lemma matches_lang: "matches r s \<longleftrightarrow> s \<in> lang r"
  by (induction s arbitrary: r) (simp_all add: nullable_lang deriv_lang)

lemma star_chars: "star {[c] | c. P c} = {w. \<forall>c\<in>set w. P c}"
proof (rule set_eqI)
  fix w :: "'a list"
  show "w \<in> star {[c] | c. P c} \<longleftrightarrow> w \<in> {w. \<forall>c\<in>set w. P c}"
    by (induction w) (auto simp: star_cons intro: star_empty)
qed

lemma lang_Star_Chars: "lang (Star (Chars cl)) = {w. \<forall>c\<in>set w. class_matches cl c}"
  by (simp add: star_chars)

lemma lang_Seq_Chars:
  "lang (Seq (Chars cl) r) = {c # w | c w. class_matches cl c \<and> w \<in> lang r}"
proof -
  have "\<And>c w. [c] @ w = c # w" by simp
  then show ?thesis by (auto simp del: append.simps) (metis append.simps)+
qed

lemma lang_Plus_Chars:
  "lang (Plus (Chars cl)) = {w. w \<noteq> [] \<and> (\<forall>c\<in>set w. class_matches cl c)}"
proof -
  have "lang (Plus (Chars cl)) = {c # w | c w. class_matches cl c \<and> w \<in> lang (Star (Chars cl))}"
    unfolding Plus_def by (rule lang_Seq_Chars)
  also have "\<dots> = {w. w \<noteq> [] \<and> (\<forall>c\<in>set w. class_matches cl c)}"
  proof (rule set_eqI)
    fix w
    show "w \<in> {c # w | c w. class_matches cl c \<and> w \<in> lang (Star (Chars cl))}
       \<longleftrightarrow> w \<in> {w. w \<noteq> [] \<and> (\<forall>c\<in>set w. class_matches cl c)}"
      by (cases w) (auto simp: star_chars)
  qed
  finally show ?thesis .
qed

lemma lang_Times_Chars:
  "lang (Times n (Chars cl)) = {w. length w = n \<and> (\<forall>c\<in>set w. class_matches cl c)}"
proof (induction n)
  case 0
  show ?case by auto
next
  case (Suc n)
  have "lang (Times (Suc n) (Chars cl)) =
        {c # w | c w. class_matches cl c \<and> w \<in> lang (Times n (Chars cl))}"
    by (simp only: Times.simps lang_Seq_Chars)
  also have "\<dots> = {w. length w = Suc n \<and> (\<forall>c\<in>set w. class_matches cl c)}"
    unfolding Suc by (auto simp: length_Suc_conv)
  finally show ?case .
qed

lemma lang_AtLeast_Chars:
  "lang (AtLeast n (Chars cl)) = {w. n \<le> length w \<and> (\<forall>c\<in>set w. class_matches cl c)}"
proof (rule set_eqI)
  fix w
  let ?ok = "\<lambda>u. \<forall>c\<in>set u. class_matches cl c"
  have "w \<in> lang (AtLeast n (Chars cl)) \<longleftrightarrow>
        (\<exists>u v. w = u @ v \<and> length u = n \<and> ?ok u \<and> ?ok v)"
    unfolding AtLeast_def lang.simps(6) lang_Times_Chars lang_Star_Chars by blast
  also have "\<dots> \<longleftrightarrow> n \<le> length w \<and> ?ok w"
  proof
    assume "\<exists>u v. w = u @ v \<and> length u = n \<and> ?ok u \<and> ?ok v"
    then show "n \<le> length w \<and> ?ok w" by auto
  next
    assume r: "n \<le> length w \<and> ?ok w"
    then have "w = take n w @ drop n w" "length (take n w) = n"
      "?ok (take n w)" "?ok (drop n w)"
      by (auto dest: in_set_takeD in_set_dropD)
    then show "\<exists>u v. w = u @ v \<and> length u = n \<and> ?ok u \<and> ?ok v" by blast
  qed
  finally show "w \<in> lang (AtLeast n (Chars cl)) \<longleftrightarrow>
      w \<in> {w. n \<le> length w \<and> (\<forall>c\<in>set w. class_matches cl c)}" by simp
qed


lemma class_local: "class_matches (Class [Range CHR ''a'' CHR ''z'', Range CHR ''A'' CHR ''Z'',
            Range CHR ''0'' CHR ''9'', Single CHR ''.'', Single CHR ''_'', Single CHR ''-'',
            Single CHR ''+'']) c \<longleftrightarrow> c \<in> local_part_chars"
  by (auto simp: local_part_chars_def letters_def decimal_digits_def)

lemma class_domain: "class_matches (Class [Range CHR ''a'' CHR ''z'', Range CHR ''A'' CHR ''Z'',
            Range CHR ''0'' CHR ''9'', Single CHR ''.'', Single CHR ''-'']) c \<longleftrightarrow> c \<in> domain_label_chars"
  by (auto simp: domain_label_chars_def letters_def decimal_digits_def)

lemma class_letters: "class_matches (Class [Range CHR ''a'' CHR ''z'', Range CHR ''A'' CHR ''Z'']) c \<longleftrightarrow> c \<in> letters"
  by (auto simp: letters_def)

lemma class_sanitize: "\<not> class_matches sanitize_class c \<longleftrightarrow> c \<in> allowed_chars"
  by (auto simp: sanitize_class_def allowed_chars_def letters_def decimal_digits_def)

lemma lang_emailRegex: "s \<in> lang emailRegex \<longleftrightarrow> email_pattern s"
  unfolding emailRegex_def email_pattern_def lang.simps(6) lang_Plus_Chars lang_AtLeast_Chars
    lang.simps(4) class_local class_domain class_letters
  apply (simp add: js_def subset_iff)
  apply (rule iffI)
   apply (elim exE conjE)
   apply blast
  apply (elim exE conjE)
  apply blast
  done


lemma sanitizeEmailPart_String:
  "sanitizeEmailPart (String s) = filter (\<lambda>c. c \<in> allowed_chars) s"
  by (simp add: sanitizeEmailPart_def replace_all_empty_def class_sanitize)

lemma sanitizeEmailPart_not_string: "typeof v \<noteq> ''string'' \<Longrightarrow> sanitizeEmailPart v = []"
  by (simp add: sanitizeEmailPart_def)

text \<open>
  Claim C1. The sanitizer returns the empty string for every value that is not a
  string, among them null, undefined and the number 123. For a string it returns the
  code units of the input that lie in \<^verbatim>\<open>{A-Z, a-z, 0-9, '.', '-', '_', '+'}\<close>, in
  their order: a result over that set and a subsequence of the input.
\<close>

theorem sanitizeEmailPart_whitelist:
  "(typeof v \<noteq> ''string'' \<longrightarrow> sanitizeEmailPart v = [])
   \<and> sanitizeEmailPart Null = []
   \<and> sanitizeEmailPart Undefined = []
   \<and> sanitizeEmailPart (Number 123) = []
   \<and> set (sanitizeEmailPart (String s)) \<subseteq> allowed_chars
   \<and> subseq (sanitizeEmailPart (String s)) s
   \<and> sanitizeEmailPart (String s) = filter (\<lambda>c. c \<in> allowed_chars) s"
proof -
  have "set (filter (\<lambda>c. c \<in> allowed_chars) s) \<subseteq> allowed_chars" by auto
  moreover have "subseq (filter (\<lambda>c. c \<in> allowed_chars) s) s" by (rule subseq_filter_left)
  moreover have "sanitizeEmailPart Null = []" "sanitizeEmailPart Undefined = []"
    "sanitizeEmailPart (Number 123) = []"
    by (simp_all add: sanitizeEmailPart_def)
  ultimately show ?thesis
    using sanitizeEmailPart_not_string [of v]
    by (simp add: sanitizeEmailPart_String)
qed

theorem sanitizeEmailPart_whitelist_witness:
  "typeof (Boolean True) \<noteq> ''string'' \<and> sanitizeEmailPart (Boolean True) = []
   \<and> set (sanitizeEmailPart (String (js ''a b<c>''))) \<subseteq> allowed_chars
   \<and> sanitizeEmailPart (String (js ''a b<c>'')) = js ''abc''"
proof -
  have "sanitizeEmailPart (String (js ''a b<c>'')) = js ''abc''" by code_simp
  moreover have "typeof (Boolean True) \<noteq> ''string''" by simp
  ultimately show ?thesis
    using sanitizeEmailPart_whitelist [of "Boolean True" "js ''a b<c>''"] by blast
qed

lemma isValidEmail_String: "isValidEmail (String s) \<longleftrightarrow> email_pattern s"
proof -
  have "email_pattern s \<Longrightarrow> s \<noteq> []" by (auto simp: email_pattern_def)
  then show ?thesis by (auto simp: isValidEmail_def matches_lang lang_emailRegex)
qed

text \<open>
  Claim C3. The validator accepts exactly the strings of the form local part,
  \<^verbatim>\<open>@\<close>, domain labels, dot, top-level domain, with the character sets and lengths
  of the specification, and no value that is not a string; the four examples of the
  specification come out as stated.
\<close>

theorem isValidEmail_pattern:
  "(isValidEmail v \<longleftrightarrow> (\<exists>s. v = String s \<and> email_pattern s))
   \<and> isValidEmail (String (js ''a@b.co''))
   \<and> \<not> isValidEmail (String (js ''a@b''))
   \<and> isValidEmail (String (js ''a.b+c@d-e.f.io''))
   \<and> \<not> isValidEmail (String (js ''@b.co''))"
proof -
  have "isValidEmail v \<longleftrightarrow> (\<exists>s. v = String s \<and> email_pattern s)"
  proof (cases v)
    case (String s)
    then show ?thesis using isValidEmail_String [of s] by simp
  qed (simp_all add: isValidEmail_def)
  moreover have "isValidEmail (String (js ''a@b.co''))" by code_simp
  moreover have "\<not> isValidEmail (String (js ''a@b''))" by code_simp
  moreover have "isValidEmail (String (js ''a.b+c@d-e.f.io''))" by code_simp
  moreover have "\<not> isValidEmail (String (js ''@b.co''))" by code_simp
  ultimately show ?thesis by blast
qed

theorem isValidEmail_pattern_witness:
  "email_pattern (js ''a@b.co'') \<and> \<not> email_pattern (js ''a@b'')"
  using isValidEmail_pattern [of "String (js ''a@b.co'')"]
    isValidEmail_pattern [of "String (js ''a@b'')"]
  by simp

section \<open>Sanitized parts need no escaping\<close>

lemma sanitizeEmailPart_allowed: "set (sanitizeEmailPart v) \<subseteq> allowed_chars"
  by (cases v) (auto simp: sanitizeEmailPart_def replace_all_empty_def sanitize_class_def
      allowed_chars_def letters_def decimal_digits_def)

lemma Encode_unescaped: "\<forall>c\<in>set s. unescaped c \<Longrightarrow> Encode unescaped s = Inr s"
  by (induction unescaped s rule: Encode.induct) (simp_all add: prepend_def)

lemma allowed_uriUnescaped: "c \<in> allowed_chars \<Longrightarrow> uriUnescaped c \<or> c = cu CHR ''+''"
  by (auto simp: allowed_chars_def letters_def decimal_digits_def uriUnescaped_def uriAlpha_def
      DecimalDigit_def uriMark_def js_def)

lemma plus_uriReserved: "uriReserved (cu CHR ''+'')" "uriReserved (cu CHR ''@'')"
  by (simp_all add: uriReserved_def js_def)

lemma dot_uriUnescaped: "uriUnescaped (cu CHR ''.'')"
  by (simp add: uriUnescaped_def uriMark_def js_def)

lemma encodeURI_email:
  "encodeURI (sanitizeEmailPart u @ js ''@'' @ sanitizeEmailPart v @ js ''.'' @ sanitizeEmailPart t)
   = Inr (sanitizeEmailPart u @ js ''@'' @ sanitizeEmailPart v @ js ''.'' @ sanitizeEmailPart t)"
  unfolding encodeURI_def
proof (rule Encode_unescaped, rule ballI)
  fix c
  assume "c \<in> set (sanitizeEmailPart u @ js ''@'' @ sanitizeEmailPart v @ js ''.'' @ sanitizeEmailPart t)"
  then have "c \<in> allowed_chars \<or> c = cu CHR ''@'' \<or> c = cu CHR ''.''"
    using sanitizeEmailPart_allowed by (auto simp: js_def)
  then show "uriReserved c \<or> uriUnescaped c \<or> c = cu CHR ''#''"
    using allowed_uriUnescaped [of c] plus_uriReserved dot_uriUnescaped by auto
qed

lemma encodeURI_assembled: "encodeURI (assembled_email d e) = Inr (assembled_email d e)"
  unfolding assembled_email_def sanitized_def by (rule encodeURI_email)

lemma not_surrogate: "c \<in> allowed_chars \<Longrightarrow> \<not> isLeadingSurrogate c \<and> \<not> isTrailingSurrogate c"
  by (auto simp: allowed_chars_def letters_def decimal_digits_def isLeadingSurrogate_def
      isTrailingSurrogate_def cu_def word_le_nat_alt)

lemma Encode_no_surrogate:
  "\<forall>c\<in>set s. \<not> isLeadingSurrogate c \<and> \<not> isTrailingSurrogate c \<Longrightarrow>
   \<exists>r. Encode unescaped s = Inr r"
  by (induction unescaped s rule: Encode.induct) (auto simp: prepend_def)

lemma encodeURIComponent_sanitized: "\<exists>r. encodeURIComponent (sanitizeEmailPart v) = Inr r"
  unfolding encodeURIComponent_def
  using sanitizeEmailPart_allowed [of v] not_surrogate
  by (intro Encode_no_surrogate) blast

section \<open>What each callback does, case by case\<close>

lemma upper_a: "toUpperCase (js ''a'') = js ''A''"
  by (simp add: toUpperCase_def js_def cu_def)

lemma anchor_built:
  "node_setAttribute (js ''rel'') (js ''noopener'')
     (node_setAttribute (js ''aria-label'') lbl
        (node_set_textContent txt
           (node_setAttribute (js ''class'') cls
              (node_setAttribute (js ''href'') href (createElement d (js ''a''))))))
   = Element (fresh d) HTML (js ''A'')
       [(js ''href'', href), (js ''class'', cls), (js ''aria-label'', lbl),
        (js ''rel'', js ''noopener'')]
       (if txt = [] then [] else [Text txt])"
  by (simp add: createElement_def upper_a) (simp add: js_def cu_def)

lemma protectedEmails_each_missing:
  "\<not> email_parts_present (dom w) e \<Longrightarrow>
   protectedEmails_each e w =
     console_warn [Str (js ''Email protection: Missing data attributes'')] w"
  by (auto simp: protectedEmails_each_def Let_def email_parts_present_def sanitized_def)

lemma protectedEmails_each_invalid:
  "email_parts_present (dom w) e \<Longrightarrow> \<not> isValidEmail (String (assembled_email (dom w) e)) \<Longrightarrow>
   protectedEmails_each e w =
     console_warn [Str (js ''Email protection: Invalid email format:''),
                   Str (assembled_email (dom w) e)] w"
  by (simp add: protectedEmails_each_def Let_def email_parts_present_def sanitized_def
      assembled_email_def)

lemma protectedEmails_each_no_parent:
  "email_data_ok (dom w) e \<Longrightarrow> parentElement (dom w) e = None \<Longrightarrow>
   protectedEmails_each e w = w"
  by (simp add: protectedEmails_each_def Let_def email_data_ok_def email_parts_present_def
      sanitized_def assembled_email_def)

lemma protectedEmails_each_in_anchor:
  "email_data_ok (dom w) e \<Longrightarrow> parentElement (dom w) e = Some p \<Longrightarrow>
   tagName (dom w) p = js ''A'' \<Longrightarrow> protectedEmails_each e w = w"
  by (simp add: protectedEmails_each_def Let_def email_data_ok_def email_parts_present_def
      sanitized_def assembled_email_def)

lemma protectedEmails_each_replaced:
  assumes "email_data_ok (dom w) e" and "parentElement (dom w) e = Some p"
    and "tagName (dom w) p \<noteq> js ''A''"
  shows "protectedEmails_each e w =
           w\<lparr>dom := replaceChild (dom w) (mailto_anchor (dom w) e) e\<rparr>"
proof -
  have par: "parentNode (dom w) e = ElementParent p"
    using assms(2) by (simp add: parentElement_def split: parent.splits)
  have enc: "encodeURI (assembled_email (dom w) e) = Inr (assembled_email (dom w) e)"
    by (rule encodeURI_assembled)
  show ?thesis
    using assms par enc
    unfolding protectedEmails_each_def Let_def mailto_anchor_def anchor_built label_nodes_def
    by (simp add: email_data_ok_def email_parts_present_def sanitized_def assembled_email_def)
qed

lemma protectedEmailLinks_each_missing:
  "\<not> email_parts_present (dom w) e \<Longrightarrow>
   protectedEmailLinks_each e w =
     console_warn [Str (js ''Email protection: Missing data attributes in link'')] w"
  by (auto simp: protectedEmailLinks_each_def Let_def email_parts_present_def sanitized_def)

lemma protectedEmailLinks_each_invalid:
  "email_parts_present (dom w) e \<Longrightarrow> \<not> isValidEmail (String (assembled_email (dom w) e)) \<Longrightarrow>
   protectedEmailLinks_each e w =
     console_warn [Str (js ''Email protection: Invalid email format in link:''),
                   Str (assembled_email (dom w) e)] w"
  by (simp add: protectedEmailLinks_each_def Let_def email_parts_present_def sanitized_def
      assembled_email_def)

lemma protectedEmailLinks_each_filled:
  assumes "email_data_ok (dom w) e"
  shows "protectedEmailLinks_each e w = w\<lparr>dom := filled_in (dom w) e\<rparr>"
proof -
  have enc: "encodeURI (assembled_email (dom w) e) = Inr (assembled_email (dom w) e)"
    by (rule encodeURI_assembled)
  show ?thesis
    using assms enc
    unfolding protectedEmailLinks_each_def Let_def filled_in_def
    by (simp add: email_data_ok_def email_parts_present_def sanitized_def assembled_email_def)
qed

lemma telegram_built:
  "node_setAttribute (js ''aria-label'') lbl
     (node_set_textContent txt
        (node_setAttribute (js ''rel'') (js ''noopener noreferrer'')
           (node_setAttribute (js ''target'') (js ''_blank'')
              (node_setAttribute (js ''class'') cls
                 (node_setAttribute (js ''href'') href (createElement d (js ''a'')))))))
   = Element (fresh d) HTML (js ''A'')
       [(js ''href'', href), (js ''class'', cls), (js ''target'', js ''_blank''),
        (js ''rel'', js ''noopener noreferrer''), (js ''aria-label'', lbl)]
       (if txt = [] then [] else [Text txt])"
  by (simp add: createElement_def upper_a) (simp add: js_def cu_def)

lemma protectedTelegram_each_missing:
  "\<not> telegram_data_ok (dom w) e \<Longrightarrow>
   protectedTelegram_each e w = console_warn [Str (js ''Telegram protection: Missing username'')] w"
  by (simp add: protectedTelegram_each_def Let_def telegram_data_ok_def sanitized_def)

lemma protectedTelegram_each_no_parent:
  assumes "telegram_data_ok (dom w) e" and "parentNode (dom w) e = NoParent"
  shows "protectedTelegram_each e w = w"
proof -
  obtain r where "encodeURIComponent (sanitized (dom w) e ''data-username'') = Inr r"
    unfolding sanitized_def using encodeURIComponent_sanitized by blast
  then show ?thesis
    using assms
    by (simp add: protectedTelegram_each_def Let_def telegram_data_ok_def sanitized_def)
qed

lemma protectedTelegram_each_replaced:
  assumes "telegram_data_ok (dom w) e" and "parentNode (dom w) e \<noteq> NoParent"
    and "encodeURIComponent (sanitized (dom w) e ''data-username'') = Inr encoded"
  shows "protectedTelegram_each e w =
           w\<lparr>dom := replaceChild (dom w) (telegram_anchor (dom w) e encoded) e\<rparr>"
  using assms
  unfolding protectedTelegram_each_def Let_def telegram_anchor_def telegram_built label_nodes_def
  by (simp add: telegram_data_ok_def sanitized_def split: parent.splits)

lemma console_warn_simps [simp]:
  "dom (console_warn args w) = dom w"
  "console (console_warn args w) = console w @ [(Warn, args)]"
  "requests (console_warn args w) = requests w"
  by (simp_all add: console_warn_def)

section \<open>Looking up and replacing elements of the tree\<close>

lemma find_node_Element: "find_node i ns = Some n \<Longrightarrow> \<exists>sp t a ks. n = Element i sp t a ks"
  by (induction ns rule: idents.induct) (auto split: if_splits option.splits)

lemma find_node_None: "find_node i ns = None \<longleftrightarrow> i \<notin> set (idents ns)"
  by (induction ns rule: idents.induct) (auto split: option.splits)

lemma place_in_None: "place_in i p ns = None \<longleftrightarrow> i \<notin> set (idents ns)"
proof (induction ns arbitrary: p rule: idents.induct)
  case (3 j sp t atts ks ns)
  show ?case
    using 3(1) [of "Under j"] 3(2) [of p]
    by (cases "place_in i (Under j) ks") auto
qed auto

lemma place_in_Some: "i \<in> set (idents ns) \<Longrightarrow> \<exists>q. place_in i p ns = Some q"
  using place_in_None [of i p ns] by (cases "place_in i p ns") auto

lemma find_node_subtree:
  "find_node i ns = Some n \<Longrightarrow> set (idents [n]) \<subseteq> set (idents ns)"
proof (induction ns rule: idents.induct)
  case (3 j sp t atts ks ns)
  show ?case
  proof (cases "i = j")
    case True
    then show ?thesis using 3(3) by auto
  next
    case False
    then show ?thesis
      using 3 by (cases "find_node i ks") auto
  qed
qed auto

lemma find_node_append:
  "find_node i (xs @ ys) = (case find_node i xs of Some n \<Rightarrow> Some n | None \<Rightarrow> find_node i ys)"
  by (induction xs rule: idents.induct) (auto split: option.splits)

lemma place_in_append:
  "place_in i p (xs @ ys) = (case place_in i p xs of Some q \<Rightarrow> Some q | None \<Rightarrow> place_in i p ys)"
  by (induction xs arbitrary: p rule: idents.induct) (auto split: option.splits)

lemma idents_append: "idents (xs @ ys) = idents xs @ idents ys"
  by (induction xs rule: idents.induct) auto

lemma fold_max_ge: "x \<in> set xs \<Longrightarrow> x \<le> fold max xs (m::nat)"
proof (induction xs arbitrary: m)
  case Nil
  then show ?case by simp
next
  case (Cons a xs)
  have mono: "m \<le> fold max xs m" for m :: nat
    by (induction xs arbitrary: m) (auto intro: order_trans [OF max.cobounded2])
  show ?case
  proof (cases "x = a")
    case True
    then show ?thesis using mono [of "max a m"] by simp
  next
    case False
    then show ?thesis using Cons by simp
  qed
qed

lemma fresh_not_in: "fresh d \<notin> set (all_idents d)"
  using fold_max_ge [of "fresh d" "all_idents d" 0] by (auto simp: fresh_def)

lemma fresh_not_document: "fresh d \<notin> set (idents (document d))"
  and fresh_not_detached: "fresh d \<notin> set (idents (detached d))"
  using fresh_not_in [of d] by (simp_all add: all_idents_def)

lemma update_in_absent: "i \<notin> set (idents ns) \<Longrightarrow> update_in i f ns = ns"
  by (induction ns rule: idents.induct) auto

lemma find_replaced:
  "i \<in> set (idents ns) \<Longrightarrow> k \<notin> set (idents ns) \<Longrightarrow>
   find_node k (update_in i (\<lambda>_. Element k sp t a ks) ns) = Some (Element k sp t a ks)"
proof (induction ns rule: idents.induct)
  case (3 j sp' t' atts ks' ns)
  show ?case
  proof (cases "i = j")
    case True
    then show ?thesis by simp
  next
    case False
    note ij = this
    from 3(4) have kj: "k \<noteq> j" and k1: "k \<notin> set (idents ks')" and k2: "k \<notin> set (idents ns)"
      by auto
    show ?thesis
    proof (cases "i \<in> set (idents ks')")
      case True
      then show ?thesis using 3(1) k1 ij kj by simp
    next
      case False
      then have "i \<in> set (idents ns)" using 3(3) ij by auto
      then have "find_node k (update_in i (\<lambda>_. Element k sp t a ks) ns) = Some (Element k sp t a ks)"
        using 3(2) k2 by simp
      moreover have "find_node k ks' = None" using k1 by (simp add: find_node_None)
      ultimately show ?thesis
        using ij kj False by (simp add: update_in_absent)
    qed
  qed
qed auto

lemma place_replaced:
  "i \<in> set (idents ns) \<Longrightarrow> k \<notin> set (idents ns) \<Longrightarrow>
   place_in k p (update_in i (\<lambda>_. Element k sp t a ks) ns) = place_in i p ns"
proof (induction ns arbitrary: p rule: idents.induct)
  case (3 j sp' t' atts ks' ns)
  show ?case
  proof (cases "i = j")
    case True
    then show ?thesis by simp
  next
    case False
    note ij = this
    from 3(4) have kj: "k \<noteq> j" and k1: "k \<notin> set (idents ks')" and k2: "k \<notin> set (idents ns)"
      by auto
    show ?thesis
    proof (cases "i \<in> set (idents ks')")
      case True
      then obtain q where "place_in i (Under j) ks' = Some q"
        using place_in_None [of i "Under j" ks'] by (cases "place_in i (Under j) ks'") auto
      then show ?thesis using 3(1) [OF True k1, of "Under j"] ij kj by simp
    next
      case False
      then have "i \<in> set (idents ns)" using 3(3) ij by auto
      then have "place_in k p (update_in i (\<lambda>_. Element k sp t a ks) ns) = place_in i p ns"
        using 3(2) [OF _ k2, of p] by simp
      moreover have "place_in k (Under j) ks' = None" "place_in i (Under j) ks' = None"
        using k1 False by (simp_all add: place_in_None)
      ultimately show ?thesis
        using ij kj False by (simp add: update_in_absent)
    qed
  qed
qed auto

lemma lookup_None: "lookup d e = None \<longleftrightarrow> e \<notin> set (all_idents d)"
proof (cases "find_node e (document d)")
  case None
  then show ?thesis
    using find_node_None [of e "document d"] find_node_None [of e "detached d"]
    by (simp add: lookup_def all_idents_def)
next
  case (Some n)
  then show ?thesis
    using find_node_None [of e "document d"] by (simp add: lookup_def all_idents_def)
qed

lemma parentNode_None: "parentNode d e = NoParent \<Longrightarrow> e \<notin> set (idents (document d))"
  using place_in_None [of e Top "document d"]
  by (auto simp: parentNode_def split: option.splits place.splits)

lemma parentNode_found: "parentNode d e \<noteq> NoParent \<Longrightarrow> \<exists>n. lookup d e = Some n"
proof -
  assume "parentNode d e \<noteq> NoParent"
  then have "e \<in> set (all_idents d)"
    using place_in_None [of e Top "document d"] place_in_None [of e Top "detached d"]
    by (auto simp: parentNode_def all_idents_def split: option.splits place.splits)
  then show ?thesis using lookup_None [of d e] by (cases "lookup d e") auto
qed

lemma lookup_replaceChild:
  assumes "lookup d e = Some n"
  shows "lookup (replaceChild d (Element (fresh d) sp t a ks) e) (fresh d)
         = Some (Element (fresh d) sp t a ks)"
proof (cases "e \<in> set (idents (document d))")
  case True
  then show ?thesis
    using assms fresh_not_document [of d]
    by (simp add: replaceChild_def lookup_def find_replaced)
next
  case False
  then have "e \<in> set (idents (detached d))"
    using assms lookup_None [of d e] by (simp add: all_idents_def)
  moreover have "find_node (fresh d) (document d) = None"
    using fresh_not_document [of d] by (simp add: find_node_None)
  ultimately show ?thesis
    using assms False fresh_not_detached [of d]
    by (simp add: replaceChild_def lookup_def find_replaced update_in_absent find_node_append)
qed

lemma parentNode_replaceChild:
  assumes "parentNode d e \<noteq> NoParent"
  shows "parentNode (replaceChild d (Element (fresh d) sp t a ks) e) (fresh d) = parentNode d e"
proof -
  obtain n where n: "lookup d e = Some n" using parentNode_found [OF assms] by blast
  show ?thesis
  proof (cases "e \<in> set (idents (document d))")
    case True
    then obtain q where "place_in e Top (document d) = Some q"
      using place_in_Some by blast
    then show ?thesis
      using n True fresh_not_document [of d]
      by (simp add: replaceChild_def parentNode_def place_replaced)
  next
    case False
    then have det: "e \<in> set (idents (detached d))"
      using n lookup_None [of d e] by (simp add: all_idents_def)
    have fn: "fresh d \<notin> set (idents [n])"
    proof -
      have "find_node e (document d) = None" using False by (simp add: find_node_None)
      then have "find_node e (detached d) = Some n"
        using n by (simp add: lookup_def)
      then have "set (idents [n]) \<subseteq> set (idents (detached d))"
        by (rule find_node_subtree)
      then show ?thesis using fresh_not_detached [of d] by blast
    qed
    have "place_in e Top (document d) = None" "place_in (fresh d) Top (document d) = None"
      "place_in (fresh d) Top [n] = None"
      using False fresh_not_document [of d] fn by (simp_all add: place_in_None)
    then show ?thesis
      using n det False fresh_not_detached [of d] assms
      by (simp add: replaceChild_def parentNode_def place_replaced update_in_absent
          place_in_append split: option.splits place.splits)
  qed
qed

lemma find_update_attr:
  "find_node i (update_in i (node_setAttribute k v) ns)
   = map_option (node_setAttribute k v) (find_node i ns)"
proof (induction ns rule: idents.induct)
  case (3 j sp t atts ks ns)
  then show ?case by (cases "find_node i ks") auto
qed auto

lemma lookup_setAttribute:
  "lookup (setAttribute d e k v) e = map_option (node_setAttribute k v) (lookup d e)"
  by (cases "find_node e (document d)") (simp_all add: lookup_def setAttribute_def find_update_attr)

lemma lookup_Element: "lookup d e = Some n \<Longrightarrow> \<exists>sp t a ks. n = Element e sp t a ks"
  using find_node_Element by (fastforce simp: lookup_def split: option.splits)

lemma href_filled_in:
  assumes "lookup d l = Some n"
  shows "getAttribute (filled_in d l) l (js ''href'')
         = String (js ''mailto:'' @ assembled_email d l)"
proof -
  obtain sp t a ks where n: "n = Element l sp t a ks" using lookup_Element [OF assms] by blast
  have ne: "js ''href'' \<noteq> js ''aria-label''" "js ''href'' \<noteq> js ''rel''"
    by (simp_all add: js_def cu_def)
  show ?thesis
    using assms n ne
    by (simp add: getAttribute_def filled_in_def lookup_setAttribute update_conv')
qed

lemma href_mailto_anchor:
  assumes "lookup d e = Some n"
  shows "getAttribute (replaceChild d (mailto_anchor d e) e) (fresh d) (js ''href'')
         = String (js ''mailto:'' @ assembled_email d e)"
  using lookup_replaceChild [OF assms]
  by (simp add: getAttribute_def mailto_anchor_def)

lemma parentElement_found: "parentElement d e = Some p \<Longrightarrow> \<exists>n. lookup d e = Some n"
  using parentNode_found [of d e] by (auto simp: parentElement_def split: parent.splits)

lemma label_nodes_text: "concat (map node_textContent (label_nodes d e)) = getElementText d e"
  by (simp add: label_nodes_def)

lemma anchor_keys:
  "js ''class'' \<noteq> js ''href''" "js ''target'' \<noteq> js ''href''" "js ''target'' \<noteq> js ''class''"
  "js ''rel'' \<noteq> js ''href''" "js ''rel'' \<noteq> js ''class''" "js ''rel'' \<noteq> js ''target''"
  "js ''aria-label'' \<noteq> js ''href''" "js ''aria-label'' \<noteq> js ''class''"
  "js ''rel'' \<noteq> js ''aria-label''"
  by (simp_all add: js_def cu_def)

section \<open>Setting the text of an element\<close>

lemma update_in_append: "update_in i g (xs @ ys) = update_in i g xs @ update_in i g ys"
  by (induction xs rule: idents.induct) auto

lemma lookup_forest: "lookup d e = find_node e (document d @ detached d)"
  by (simp add: lookup_def find_node_append)

lemma idents_filter_Element: "idents (filter is_Element ks) = idents ks"
  by (induction ks rule: idents.induct) auto

lemma find_node_filter_Element: "find_node i (filter is_Element ks) = find_node i ks"
  by (induction ks rule: idents.induct) (auto split: option.splits)

lemma idents_set_text_subset:
  "set (idents (update_in l (node_set_textContent s) ns)) \<subseteq> set (idents ns)"
  by (induction ns rule: idents.induct) auto

lemma find_set_text_same:
  "find_node l (update_in l (node_set_textContent s) ns)
   = map_option (node_set_textContent s) (find_node l ns)"
proof (induction ns rule: idents.induct)
  case (3 j sp t atts ks ns)
  then show ?case by (cases "find_node l ks") auto
qed auto

lemma find_node_in_subtree:
  "distinct (idents ns) \<Longrightarrow> find_node l ns = Some nl \<Longrightarrow> k \<in> set (idents [nl]) \<Longrightarrow>
   find_node k ns = find_node k [nl]"
proof (induction ns rule: idents.induct)
  case (3 j sp t atts ks ns)
  show ?case
  proof (cases "l = j")
    case True
    then have nl: "nl = Element j sp t atts ks" using 3(4) by simp
    show ?thesis
    proof (cases "k = j")
      case True
      then show ?thesis by (simp add: nl)
    next
      case False
      then have "k \<in> set (idents ks)" using 3(5) nl by simp
      then have "find_node k ks \<noteq> None" by (simp add: find_node_None)
      then show ?thesis using False by (cases "find_node k ks") (auto simp: nl)
    qed
  next
    case False
    note lj = this
    show ?thesis
    proof (cases "find_node l ks")
      case None
      then have l: "find_node l ns = Some nl" using 3(4) lj by simp
      then have sub: "set (idents [nl]) \<subseteq> set (idents ns)" by (rule find_node_subtree)
      then have "k \<in> set (idents ns)" using 3(5) by blast
      then have "k \<noteq> j" "find_node k ks = None" using 3(3) by (auto simp: find_node_None)
      moreover have "find_node k ns = find_node k [nl]" using 3(2) 3(3) l 3(5) by simp
      ultimately show ?thesis by simp
    next
      case (Some n)
      then have l: "find_node l ks = Some nl" using 3(4) lj by simp
      then have sub: "set (idents [nl]) \<subseteq> set (idents ks)" by (rule find_node_subtree)
      then have kin: "k \<in> set (idents ks)" using 3(5) by blast
      then have "k \<noteq> j" using 3(3) by auto
      moreover have "find_node k ks = find_node k [nl]" using 3(1) 3(3) l 3(5) by simp
      moreover have "find_node k ks \<noteq> None" using kin by (simp add: find_node_None)
      ultimately show ?thesis by (cases "find_node k ks") auto
    qed
  qed
qed auto

lemma idents_set_text_mset:
  "distinct (idents ns) \<Longrightarrow> find_node l ns = Some nl \<Longrightarrow>
   mset (idents (update_in l (node_set_textContent s) ns)) + mset (idents (node_childNodes nl))
   = mset (idents ns)"
proof (induction ns rule: idents.induct)
  case (3 j sp t atts ks ns)
  show ?case
  proof (cases "l = j")
    case True
    then have "l \<notin> set (idents ns)" using 3(3) by simp
    then show ?thesis using True 3(4) by (auto simp: update_in_absent)
  next
    case False
    note lj = this
    show ?thesis
    proof (cases "find_node l ks")
      case None
      then have "l \<notin> set (idents ks)" by (simp add: find_node_None)
      moreover have "find_node l ns = Some nl" using 3(4) lj None by simp
      ultimately show ?thesis using 3(2) 3(3) lj by (simp add: update_in_absent)
    next
      case (Some n)
      then have l: "find_node l ks = Some nl" using 3(4) lj by simp
      then have "l \<in> set (idents ks)" using find_node_None [of l ks] by auto
      then have "l \<notin> set (idents ns)" using 3(3) by auto
      then show ?thesis using 3(1) 3(3) l lj by (simp add: update_in_absent)
    qed
  qed
qed auto

lemma find_set_text_other:
  "distinct (idents ns) \<Longrightarrow> find_node f ns = Some nf \<Longrightarrow> l \<notin> set (idents [nf]) \<Longrightarrow>
   f \<in> set (idents (update_in l (node_set_textContent s) ns)) \<Longrightarrow>
   find_node f (update_in l (node_set_textContent s) ns) = Some nf"
proof (induction ns rule: idents.induct)
  case (3 j sp t atts ks ns)
  let ?g = "node_set_textContent s"
  show ?case
  proof (cases "f = j")
    case True
    then have nf: "nf = Element j sp t atts ks" using 3(4) by simp
    then have "l \<noteq> j" "l \<notin> set (idents ks)" using 3(5) by auto
    then show ?thesis using True by (simp add: nf update_in_absent)
  next
    case False
    note fj = this
    show ?thesis
    proof (cases "find_node f ks")
      case None
      then have fks: "f \<notin> set (idents ks)" by (simp add: find_node_None)
      then have fup: "f \<notin> set (idents (update_in l ?g ks))"
        using idents_set_text_subset [of l s ks] by blast
      have rest: "find_node f ns = Some nf" using 3(4) fj None by simp
      have "f \<in> set (idents (update_in l ?g ns))"
        using 3(6) fj fup by (auto split: if_splits)
      then have "find_node f (update_in l ?g ns) = Some nf"
        using 3(2) 3(3) rest 3(5) by simp
      moreover have "find_node f (update_in l ?g ks) = None" using fup by (simp add: find_node_None)
      ultimately show ?thesis using fj by (auto split: if_splits)
    next
      case (Some n)
      then have inks: "find_node f ks = Some nf" using 3(4) fj by simp
      then have "f \<in> set (idents ks)" using find_node_None [of f ks] by auto
      then have "f \<notin> set (idents ns)" using 3(3) by auto
      then have frest: "f \<notin> set (idents (update_in l ?g ns))"
        using idents_set_text_subset [of l s ns] by blast
      show ?thesis
      proof (cases "l = j")
        case True
        then show ?thesis using 3(6) fj frest by (auto split: if_splits)
      next
        case False
        then have "f \<in> set (idents (update_in l ?g ks))"
          using 3(6) fj frest by auto
        then have "find_node f (update_in l ?g ks) = Some nf"
          using 3(1) 3(3) inks 3(5) by simp
        then show ?thesis using fj False by simp
      qed
    qed
  qed
qed auto

lemma lookup_set_textContent:
  assumes "lookup d l = Some nl"
  shows "lookup (set_textContent d l s) k
         = find_node k (update_in l (node_set_textContent s) (document d @ detached d)
                        @ filter is_Element (node_childNodes nl))"
  using assms by (simp add: lookup_forest set_textContent_def update_in_append)

lemma lookup_set_textContent_same:
  assumes "lookup d l = Some nl"
  shows "lookup (set_textContent d l s) l = Some (node_set_textContent s nl)"
proof -
  have "find_node l (document d @ detached d) = Some nl"
    using assms by (simp add: lookup_forest)
  then have "find_node l (update_in l (node_set_textContent s) (document d @ detached d))
      = Some (node_set_textContent s nl)"
    by (simp add: find_set_text_same)
  then show ?thesis
    by (simp add: lookup_set_textContent [OF assms] find_node_append)
qed

lemma all_idents_set_textContent:
  assumes "well_formed d" and "lookup d l = Some nl"
  shows "mset (all_idents (set_textContent d l s)) = mset (all_idents d)"
proof -
  have "distinct (idents (document d @ detached d))"
    using assms(1) by (simp add: well_formed_def all_idents_def idents_append)
  moreover have "find_node l (document d @ detached d) = Some nl"
    using assms(2) by (simp add: lookup_forest)
  ultimately have "mset (idents (update_in l (node_set_textContent s) (document d @ detached d)))
      + mset (idents (node_childNodes nl)) = mset (idents (document d @ detached d))"
    by (rule idents_set_text_mset)
  then show ?thesis
    using assms(2)
    by (simp add: all_idents_def set_textContent_def idents_append update_in_append
        idents_filter_Element ac_simps)
qed

lemma well_formed_set_textContent:
  assumes "well_formed d" and "lookup d l = Some nl"
  shows "well_formed (set_textContent d l s)"
  using assms(1) mset_eq_imp_distinct_iff [OF all_idents_set_textContent [OF assms, of s]]
  by (simp add: well_formed_def)

lemma lookup_set_textContent_other:
  assumes wf: "well_formed d" and f: "lookup d f = Some nf" and l: "lookup d l = Some nl"
    and out: "l \<notin> set (idents [nf])"
  shows "lookup (set_textContent d l s) f = Some nf"
proof -
  let ?F = "document d @ detached d"
  let ?U = "update_in l (node_set_textContent s) ?F"
  have dist: "distinct (idents ?F)"
    using wf by (simp add: well_formed_def all_idents_def idents_append)
  have fF: "find_node f ?F = Some nf" and lF: "find_node l ?F = Some nl"
    using f l by (simp_all add: lookup_forest)
  show ?thesis
  proof (cases "f \<in> set (idents ?U)")
    case True
    then have "find_node f ?U = Some nf"
      using find_set_text_other [OF dist fF out] by simp
    then show ?thesis by (simp add: lookup_set_textContent [OF l] find_node_append)
  next
    case False
    then have none: "find_node f ?U = None" by (simp add: find_node_None)
    have "f \<in> set (idents ?F)" using fF find_node_None [of f ?F] by auto
    then have "f \<in># mset (idents ?U) + mset (idents (node_childNodes nl))"
      using idents_set_text_mset [OF dist lF, of s] by simp
    then have inkids: "f \<in> set (idents (node_childNodes nl))" using False by simp
    obtain sp t a ks where nl: "nl = Element l sp t a ks" using lookup_Element [OF l] by blast
    have "f \<noteq> l"
    proof
      assume "f = l"
      then have "nf = nl" using f l by simp
      then show False using out nl by simp
    qed
    moreover have "find_node f ?F = find_node f [nl]"
      using find_node_in_subtree [OF dist lF, of f] inkids nl by simp
    ultimately have "find_node f ks = Some nf"
      using fF nl by (cases "find_node f ks") auto
    then show ?thesis
      using none nl
      by (simp add: lookup_set_textContent [OF l] find_node_append find_node_filter_Element)
  qed
qed

lemma select_in_idents: "set (select_in sel pre ns) \<subseteq> set (idents ns)"
  by (induction sel pre ns rule: select_in.induct) auto

lemma element_querySelector_found:
  assumes "element_querySelector d c sel = Some x"
  shows "\<exists>n. lookup d x = Some n"
proof -
  obtain nc where nc: "lookup d c = Some nc"
    using assms by (auto simp: element_querySelector_def split: option.splits)
  then have "x \<in> set (select_in sel [] (node_childNodes nc))"
    using assms by (auto simp: element_querySelector_def split: list.splits)
  then have "x \<in> set (idents (node_childNodes nc))" using select_in_idents by blast
  moreover obtain sp t a ks where "nc = Element c sp t a ks" using lookup_Element [OF nc] by blast
  ultimately have "x \<in> set (idents [nc])" by simp
  moreover have "set (idents [nc]) \<subseteq> set (idents (document d @ detached d))"
    using nc by (intro find_node_subtree [of c]) (simp add: lookup_forest)
  ultimately have "x \<in> set (all_idents d)" by (auto simp: all_idents_def idents_append)
  then show ?thesis using lookup_None [of d x] by (cases "lookup d x") auto
qed

lemma node_textContent_set: "node_textContent (node_set_textContent s n) = s"
  by (cases n) auto

lemma two_texts:
  assumes wf: "well_formed d" and f: "lookup d f = Some nf" and l: "lookup d l = Some nl"
    and ne: "f \<noteq> l"
  shows "textContent (set_textContent (set_textContent d f s) l s') f = s"
    and "textContent (set_textContent (set_textContent d f s) l s') l = s'"
proof -
  let ?d1 = "set_textContent d f s"
  obtain sp t a ks where nf: "nf = Element f sp t a ks" using lookup_Element [OF f] by blast
  have f1: "lookup ?d1 f = Some (node_set_textContent s nf)"
    by (rule lookup_set_textContent_same [OF f])
  have wf1: "well_formed ?d1" by (rule well_formed_set_textContent [OF wf f])
  have "l \<in> set (all_idents d)" using l lookup_None [of d l] by auto
  then have "l \<in># mset (all_idents ?d1)" using all_idents_set_textContent [OF wf f, of s] by simp
  then have "l \<in> set (all_idents ?d1)" by simp
  then obtain nl1 where l1: "lookup ?d1 l = Some nl1"
    using lookup_None [of ?d1 l] by (cases "lookup ?d1 l") auto
  have out: "l \<notin> set (idents [node_set_textContent s nf])" using ne nf by simp
  have "lookup (set_textContent ?d1 l s') f = Some (node_set_textContent s nf)"
    by (rule lookup_set_textContent_other [OF wf1 f1 l1 out])
  then show "textContent (set_textContent ?d1 l s') f = s"
    by (simp add: textContent_def node_textContent_set)
  have "lookup (set_textContent ?d1 l s') l = Some (node_set_textContent s' nl1)"
    by (rule lookup_set_textContent_same [OF l1])
  then show "textContent (set_textContent ?d1 l s') l = s'"
    by (simp add: textContent_def node_textContent_set)
qed

section \<open>The passes of the contact obfuscator\<close>

text \<open>
  Claim C2. Whatever element a pass hands to its callback, and whatever the page is
  at that moment: the callback changes the document only if every required part is
  present and non-empty after sanitization and, in the two email passes, the
  assembled address passes \<^verbatim>\<open>isValidEmail\<close>; and in every other case, that is
  whenever a part is missing or the address is invalid, the document stays as it was
  and one warning is added to the console. The three conjunct pairs are the email
  spans, the email anchors and the telegram spans.
\<close>

theorem placeholder_converted_only_if_valid:
  "(dom (protectedEmails_each e w) \<noteq> dom w \<longrightarrow> email_data_ok (dom w) e)
   \<and> (\<not> email_data_ok (dom w) e \<longrightarrow>
        dom (protectedEmails_each e w) = dom w
        \<and> (\<exists>args. console (protectedEmails_each e w) = console w @ [(Warn, args)]))
   \<and> (dom (protectedEmailLinks_each e w) \<noteq> dom w \<longrightarrow> email_data_ok (dom w) e)
   \<and> (\<not> email_data_ok (dom w) e \<longrightarrow>
        dom (protectedEmailLinks_each e w) = dom w
        \<and> (\<exists>args. console (protectedEmailLinks_each e w) = console w @ [(Warn, args)]))
   \<and> (dom (protectedTelegram_each e w) \<noteq> dom w \<longrightarrow> telegram_data_ok (dom w) e)
   \<and> (\<not> telegram_data_ok (dom w) e \<longrightarrow>
        dom (protectedTelegram_each e w) = dom w
        \<and> (\<exists>args. console (protectedTelegram_each e w) = console w @ [(Warn, args)]))"
proof -
  have spans: "dom (protectedEmails_each e w) = dom w
      \<and> (\<exists>args. console (protectedEmails_each e w) = console w @ [(Warn, args)])"
    if "\<not> email_data_ok (dom w) e"
  proof (cases "email_parts_present (dom w) e")
    case True
    then have "\<not> isValidEmail (String (assembled_email (dom w) e))"
      using that by (simp add: email_data_ok_def)
    then show ?thesis using protectedEmails_each_invalid [OF True] by simp
  next
    case False
    then show ?thesis using protectedEmails_each_missing by simp
  qed
  have links: "dom (protectedEmailLinks_each e w) = dom w
      \<and> (\<exists>args. console (protectedEmailLinks_each e w) = console w @ [(Warn, args)])"
    if "\<not> email_data_ok (dom w) e"
  proof (cases "email_parts_present (dom w) e")
    case True
    then have "\<not> isValidEmail (String (assembled_email (dom w) e))"
      using that by (simp add: email_data_ok_def)
    then show ?thesis using protectedEmailLinks_each_invalid [OF True] by simp
  next
    case False
    then show ?thesis using protectedEmailLinks_each_missing by simp
  qed
  have telegram: "dom (protectedTelegram_each e w) = dom w
      \<and> (\<exists>args. console (protectedTelegram_each e w) = console w @ [(Warn, args)])"
    if "\<not> telegram_data_ok (dom w) e"
    using that protectedTelegram_each_missing by simp
  show ?thesis using spans links telegram by blast
qed

theorem placeholder_converted_only_if_valid_witness:
  "\<not> email_data_ok (dom email_page) 6
   \<and> dom (protectedEmails_each 6 email_page) = dom email_page
   \<and> dom (protectedEmails_each 4 email_page) \<noteq> dom email_page
   \<and> email_data_ok (dom email_page) 4
   \<and> \<not> email_data_ok (dom email_page) 8
   \<and> dom (protectedEmailLinks_each 8 email_page) = dom email_page
   \<and> dom (protectedEmailLinks_each 7 email_page) \<noteq> dom email_page
   \<and> email_data_ok (dom email_page) 7
   \<and> \<not> telegram_data_ok (dom telegram_page) 4
   \<and> dom (protectedTelegram_each 4 telegram_page) = dom telegram_page
   \<and> dom (protectedTelegram_each 3 telegram_page) \<noteq> dom telegram_page
   \<and> telegram_data_ok (dom telegram_page) 3"
proof -
  have a: "\<not> email_data_ok (dom email_page) 6" by code_simp
  have b: "dom (protectedEmails_each 4 email_page) \<noteq> dom email_page" by code_simp
  have c: "\<not> email_data_ok (dom email_page) 8" by code_simp
  have d: "dom (protectedEmailLinks_each 7 email_page) \<noteq> dom email_page" by code_simp
  have e: "\<not> telegram_data_ok (dom telegram_page) 4" by code_simp
  have f: "dom (protectedTelegram_each 3 telegram_page) \<noteq> dom telegram_page" by code_simp
  have "dom (protectedEmails_each 6 email_page) = dom email_page"
    using placeholder_converted_only_if_valid [of 6 email_page] a by simp
  moreover have "email_data_ok (dom email_page) 4"
    using placeholder_converted_only_if_valid [of 4 email_page] b by simp
  moreover have "dom (protectedEmailLinks_each 8 email_page) = dom email_page"
    using placeholder_converted_only_if_valid [of 8 email_page] c by simp
  moreover have "email_data_ok (dom email_page) 7"
    using placeholder_converted_only_if_valid [of 7 email_page] d by simp
  moreover have "dom (protectedTelegram_each 4 telegram_page) = dom telegram_page"
    using placeholder_converted_only_if_valid [of 4 telegram_page] e by simp
  moreover have "telegram_data_ok (dom telegram_page) 3"
    using placeholder_converted_only_if_valid [of 3 telegram_page] f by simp
  ultimately show ?thesis using a b c d e f by simp
qed

text \<open>
  Claim C7. In pass 1, when one of the three parts is missing or sanitizes to the
  empty string (a placeholder without \<^verbatim>\<open>data-tld\<close> is the second conjunct), the
  callback returns the page with exactly one more console entry, the warning about
  missing data attributes: the document is unmodified.
\<close>

theorem missing_part_one_warning:
  "(sanitized (dom w) e ''data-user'' = [] \<or> sanitized (dom w) e ''data-domain'' = []
      \<or> sanitized (dom w) e ''data-tld'' = [] \<longrightarrow>
    protectedEmails_each e w =
      w\<lparr>console := console w @ [(Warn, [Str (js ''Email protection: Missing data attributes'')])]\<rparr>)
   \<and> (getAttribute (dom w) e (js ''data-tld'') = Null \<longrightarrow>
    protectedEmails_each e w =
      w\<lparr>console := console w @ [(Warn, [Str (js ''Email protection: Missing data attributes'')])]\<rparr>)"
proof -
  have "sanitized (dom w) e ''data-tld'' = []" if "getAttribute (dom w) e (js ''data-tld'') = Null"
    using that by (simp add: sanitized_def sanitizeEmailPart_def)
  then show ?thesis
    using protectedEmails_each_missing [of w e]
    by (auto simp: email_parts_present_def console_warn_def)
qed

theorem missing_part_one_warning_witness:
  "getAttribute (dom email_page) 6 (js ''data-tld'') = Null
   \<and> sanitized (dom email_page) 6 ''data-tld'' = []
   \<and> protectedEmails_each 6 email_page =
       email_page\<lparr>console := [(Warn, [Str (js ''Email protection: Missing data attributes'')])]\<rparr>"
proof -
  have "getAttribute (dom email_page) 6 (js ''data-tld'') = Null" by code_simp
  moreover have "sanitized (dom email_page) 6 ''data-tld'' = []" by code_simp
  moreover have "console email_page = []" by (simp add: email_page_def)
  ultimately show ?thesis
    using missing_part_one_warning [of email_page 6] by simp
qed

text \<open>
  Claim C10. In pass 1 an element without a parent element is never replaced: the
  document is unchanged, and when its three parts are non-empty and the assembled
  address is valid the whole page is unchanged, so nothing is logged either.
\<close>

theorem no_parent_element_never_replaced:
  "parentElement (dom w) e = None \<Longrightarrow>
   dom (protectedEmails_each e w) = dom w
   \<and> (email_data_ok (dom w) e \<longrightarrow> protectedEmails_each e w = w)"
proof -
  assume np: "parentElement (dom w) e = None"
  show ?thesis
  proof (cases "email_data_ok (dom w) e")
    case True
    then show ?thesis using protectedEmails_each_no_parent [OF True np] by simp
  next
    case False
    then show ?thesis
      using protectedEmails_each_missing [of w e] protectedEmails_each_invalid [of w e]
      by (cases "email_parts_present (dom w) e") (auto simp: email_data_ok_def)
  qed
qed

theorem no_parent_element_never_replaced_witness:
  "parentElement (dom root_page) 1 = None \<and> email_data_ok (dom root_page) 1
   \<and> protectedEmails_each 1 root_page = root_page"
proof -
  have "parentElement (dom root_page) 1 = None" by code_simp
  moreover have "email_data_ok (dom root_page) 1" by code_simp
  ultimately show ?thesis
    using no_parent_element_never_replaced [of root_page 1] by blast
qed

text \<open>
  Claim C9. An address assembled from outputs of the sanitizer is a fixed point of
  \<^verbatim>\<open>encodeURI\<close>: no code unit of it is escaped and no exception is raised. So the
  \<^verbatim>\<open>href\<close> that pass 1 gives the new anchor and that pass 2 writes into the
  existing anchor is \<^verbatim>\<open>"mailto:"\<close> followed by the address, code unit for code unit.
\<close>

theorem mailto_href_not_escaped:
  "encodeURI (sanitizeEmailPart u @ js ''@'' @ sanitizeEmailPart v @ js ''.'' @ sanitizeEmailPart t)
     = Inr (sanitizeEmailPart u @ js ''@'' @ sanitizeEmailPart v @ js ''.'' @ sanitizeEmailPart t)
   \<and> (email_data_ok (dom w) e \<and> parentElement (dom w) e = Some p \<and> tagName (dom w) p \<noteq> js ''A''
        \<longrightarrow> getAttribute (dom (protectedEmails_each e w)) (fresh (dom w)) (js ''href'')
            = String (js ''mailto:'' @ assembled_email (dom w) e))
   \<and> (email_data_ok (dom w) l \<and> lookup (dom w) l \<noteq> None
        \<longrightarrow> getAttribute (dom (protectedEmailLinks_each l w)) l (js ''href'')
            = String (js ''mailto:'' @ assembled_email (dom w) l))"
proof (intro conjI impI)
  show "encodeURI (sanitizeEmailPart u @ js ''@'' @ sanitizeEmailPart v @ js ''.'' @ sanitizeEmailPart t)
     = Inr (sanitizeEmailPart u @ js ''@'' @ sanitizeEmailPart v @ js ''.'' @ sanitizeEmailPart t)"
    by (rule encodeURI_email)
next
  assume a: "email_data_ok (dom w) e \<and> parentElement (dom w) e = Some p \<and> tagName (dom w) p \<noteq> js ''A''"
  then obtain n where "lookup (dom w) e = Some n" using parentElement_found by blast
  then show "getAttribute (dom (protectedEmails_each e w)) (fresh (dom w)) (js ''href'')
            = String (js ''mailto:'' @ assembled_email (dom w) e)"
    using a protectedEmails_each_replaced [of w e p] href_mailto_anchor by simp
next
  assume a: "email_data_ok (dom w) l \<and> lookup (dom w) l \<noteq> None"
  then obtain n where "lookup (dom w) l = Some n" by blast
  then show "getAttribute (dom (protectedEmailLinks_each l w)) l (js ''href'')
            = String (js ''mailto:'' @ assembled_email (dom w) l)"
    using a protectedEmailLinks_each_filled [of w l] href_filled_in by simp
qed

theorem mailto_href_not_escaped_witness:
  "email_data_ok (dom email_page) 4 \<and> parentElement (dom email_page) 4 = Some 3
   \<and> tagName (dom email_page) 3 \<noteq> js ''A''
   \<and> getAttribute (dom (protectedEmails_each 4 email_page)) (fresh (dom email_page))
        (js ''href'') = String (js ''mailto:'' @ assembled_email (dom email_page) 4)
   \<and> email_data_ok (dom email_page) 7 \<and> lookup (dom email_page) 7 \<noteq> None
   \<and> getAttribute (dom (protectedEmailLinks_each 7 email_page)) 7 (js ''href'')
       = String (js ''mailto:'' @ assembled_email (dom email_page) 7)"
proof -
  have a: "email_data_ok (dom email_page) 4" "parentElement (dom email_page) 4 = Some 3"
    "tagName (dom email_page) 3 \<noteq> js ''A''"
    by code_simp+
  have b: "email_data_ok (dom email_page) 7" "lookup (dom email_page) 7 \<noteq> None"
    by code_simp+
  show ?thesis
    using mailto_href_not_escaped [of Null Null Null email_page 4 3 7] a b by blast
qed

text \<open>
  Claim C8, as stated, fails in two places. The text of the anchor is what
  \<^verbatim>\<open>getElementText\<close> returns, which falls back on \<^verbatim>\<open>innerText\<close>: for a placeholder
  whose only child is a line break the \<^verbatim>\<open>textContent\<close> is empty and the anchor's
  text is the rendered line feed. And \<^verbatim>\<open>className\<close> of an SVG element is an object,
  so the anchor made for an SVG placeholder gets the class
  \<^verbatim>\<open>[object SVGAnimatedString]\<close>, not the class of the placeholder. Both
  placeholders carry \<^verbatim>\<open>data-username="abc_123"\<close> and have a parent node, and both are
  selected and replaced by the pass.
\<close>

theorem telegram_label_and_class_counterexample:
  "querySelectorAll (dom break_page) (ClassSelector (js ''protected-telegram'')) = [3]
   \<and> getAttribute (dom break_page) 3 (js ''data-username'') = String (js ''abc_123'')
   \<and> parentNode (dom break_page) 3 = ElementParent 2
   \<and> textContent (dom break_page) 3 = []
   \<and> parentNode (dom (processProtectedTelegram break_page)) 5 = ElementParent 2
   \<and> getAttribute (dom (processProtectedTelegram break_page)) 5 (js ''href'')
       = String (js ''https://t.me/abc_123'')
   \<and> textContent (dom (processProtectedTelegram break_page)) 5 = [0x0A]
   \<and> textContent (dom (processProtectedTelegram break_page)) 5 \<noteq> textContent (dom break_page) 3
   \<and> querySelectorAll (dom svg_page) (ClassSelector (js ''protected-telegram'')) = [4]
   \<and> getAttribute (dom svg_page) 4 (js ''data-username'') = String (js ''abc_123'')
   \<and> parentNode (dom svg_page) 4 = ElementParent 3
   \<and> getAttribute (dom svg_page) 4 (js ''class'') = String (js ''protected-telegram'')
   \<and> parentNode (dom (processProtectedTelegram svg_page)) 5 = ElementParent 3
   \<and> getAttribute (dom (processProtectedTelegram svg_page)) 5 (js ''href'')
       = String (js ''https://t.me/abc_123'')
   \<and> getAttribute (dom (processProtectedTelegram svg_page)) 5 (js ''class'')
       = String (js ''[object SVGAnimatedString]'')
   \<and> getAttribute (dom (processProtectedTelegram svg_page)) 5 (js ''class'')
       \<noteq> getAttribute (dom svg_page) 4 (js ''class'')"
proof -
  have break_before:
    "querySelectorAll (dom break_page) (ClassSelector (js ''protected-telegram'')) = [3]
     \<and> getAttribute (dom break_page) 3 (js ''data-username'') = String (js ''abc_123'')
     \<and> parentNode (dom break_page) 3 = ElementParent 2
     \<and> textContent (dom break_page) 3 = []"
    by code_simp
  have break_after:
    "parentNode (dom (processProtectedTelegram break_page)) 5 = ElementParent 2
     \<and> getAttribute (dom (processProtectedTelegram break_page)) 5 (js ''href'')
         = String (js ''https://t.me/abc_123'')
     \<and> textContent (dom (processProtectedTelegram break_page)) 5 = [0x0A]"
    by code_simp
  have svg_before:
    "querySelectorAll (dom svg_page) (ClassSelector (js ''protected-telegram'')) = [4]
     \<and> getAttribute (dom svg_page) 4 (js ''data-username'') = String (js ''abc_123'')
     \<and> parentNode (dom svg_page) 4 = ElementParent 3
     \<and> getAttribute (dom svg_page) 4 (js ''class'') = String (js ''protected-telegram'')"
    by code_simp
  have svg_after:
    "parentNode (dom (processProtectedTelegram svg_page)) 5 = ElementParent 3
     \<and> getAttribute (dom (processProtectedTelegram svg_page)) 5 (js ''href'')
         = String (js ''https://t.me/abc_123'')
     \<and> getAttribute (dom (processProtectedTelegram svg_page)) 5 (js ''class'')
         = String (js ''[object SVGAnimatedString]'')"
    by code_simp
  have differ: "js ''[object SVGAnimatedString]'' \<noteq> js ''protected-telegram''"
    by code_simp
  show ?thesis
    using break_before break_after svg_before svg_after differ by simp
qed

text \<open>
  Claim C8, amended. For a telegram placeholder with \<^verbatim>\<open>data-username="abc_123"\<close>
  and a parent node, the callback of pass 3 puts in its place an anchor with
  \<^verbatim>\<open>href="https://t.me/abc_123"\<close>, \<^verbatim>\<open>target="_blank"\<close> and a \<^verbatim>\<open>rel\<close> whose tokens
  include \<^verbatim>\<open>noopener\<close> and \<^verbatim>\<open>noreferrer\<close>. When the placeholder is not an SVG
  element, the class attribute of the anchor is the class attribute of the
  placeholder, and the empty string when the placeholder has none. The text of the
  anchor is the \<^verbatim>\<open>textContent\<close> of the placeholder when that is not empty, and
  otherwise its \<^verbatim>\<open>innerText\<close>, or nothing when the placeholder has no
  \<^verbatim>\<open>innerText\<close>.
\<close>

theorem telegram_placeholder_anchor:
  assumes "getAttribute (dom w) e (js ''data-username'') = String (js ''abc_123'')"
    and "parentNode (dom w) e \<noteq> NoParent"
  shows "dom (protectedTelegram_each e w)
           = replaceChild (dom w) (telegram_anchor (dom w) e (js ''abc_123'')) e
     \<and> console (protectedTelegram_each e w) = console w
     \<and> parentNode (dom (protectedTelegram_each e w)) (fresh (dom w)) = parentNode (dom w) e
     \<and> tagName (dom (protectedTelegram_each e w)) (fresh (dom w)) = js ''A''
     \<and> getAttribute (dom (protectedTelegram_each e w)) (fresh (dom w)) (js ''href'')
         = String (js ''https://t.me/abc_123'')
     \<and> getAttribute (dom (protectedTelegram_each e w)) (fresh (dom w)) (js ''target'')
         = String (js ''_blank'')
     \<and> getAttribute (dom (protectedTelegram_each e w)) (fresh (dom w)) (js ''rel'')
         = String (js ''noopener noreferrer'')
     \<and> js ''noopener'' \<in> set (tokens [] (js ''noopener noreferrer''))
     \<and> js ''noreferrer'' \<in> set (tokens [] (js ''noopener noreferrer''))
     \<and> (namespaceOf (dom w) e \<noteq> Some SVG \<longrightarrow>
          (\<forall>v. getAttribute (dom w) e (js ''class'') = String v \<longrightarrow>
               getAttribute (dom (protectedTelegram_each e w)) (fresh (dom w)) (js ''class'')
                 = String v)
          \<and> (getAttribute (dom w) e (js ''class'') = Null \<longrightarrow>
               getAttribute (dom (protectedTelegram_each e w)) (fresh (dom w)) (js ''class'')
                 = String []))
     \<and> (textContent (dom w) e \<noteq> [] \<longrightarrow>
          textContent (dom (protectedTelegram_each e w)) (fresh (dom w)) = textContent (dom w) e)
     \<and> (textContent (dom w) e = [] \<longrightarrow>
          (\<forall>s. innerText (dom w) e = String s \<longrightarrow>
               textContent (dom (protectedTelegram_each e w)) (fresh (dom w)) = s)
          \<and> (innerText (dom w) e = Undefined \<longrightarrow>
               textContent (dom (protectedTelegram_each e w)) (fresh (dom w)) = []))"
proof -
  let ?d = "dom w"
  let ?a = "telegram_anchor ?d e (js ''abc_123'')"
  have san: "sanitized ?d e ''data-username'' = js ''abc_123''"
  proof -
    have "sanitizeEmailPart (String (js ''abc_123'')) = js ''abc_123''" by code_simp
    then show ?thesis using assms(1) by (simp add: sanitized_def)
  qed
  have ok: "telegram_data_ok ?d e"
  proof -
    have "js ''abc_123'' \<noteq> []" by (simp add: js_def)
    then show ?thesis using san by (simp add: telegram_data_ok_def)
  qed
  have enc: "encodeURIComponent (sanitized ?d e ''data-username'') = Inr (js ''abc_123'')"
  proof -
    have "encodeURIComponent (js ''abc_123'') = Inr (js ''abc_123'')" by code_simp
    then show ?thesis using san by simp
  qed
  have step: "protectedTelegram_each e w = w\<lparr>dom := replaceChild ?d ?a e\<rparr>"
    by (rule protectedTelegram_each_replaced [OF ok assms(2) enc])
  obtain n where n: "lookup ?d e = Some n" using parentNode_found [OF assms(2)] by blast
  have look: "lookup (replaceChild ?d ?a e) (fresh ?d) = Some ?a"
    using lookup_replaceChild [OF n] by (simp add: telegram_anchor_def)
  have par: "parentNode (replaceChild ?d ?a e) (fresh ?d) = parentNode ?d e"
    using parentNode_replaceChild [OF assms(2)] by (simp add: telegram_anchor_def)
  have href: "js ''https://t.me/'' @ js ''abc_123'' = js ''https://t.me/abc_123''"
    by (simp add: js_def)
  have toks: "tokens [] (js ''noopener noreferrer'') = [js ''noopener'', js ''noreferrer'']"
    by code_simp
  have attrs: "getAttribute (replaceChild ?d ?a e) (fresh ?d) (js ''href'')
                 = String (js ''https://t.me/abc_123'')"
    "getAttribute (replaceChild ?d ?a e) (fresh ?d) (js ''target'') = String (js ''_blank'')"
    "getAttribute (replaceChild ?d ?a e) (fresh ?d) (js ''rel'')
       = String (js ''noopener noreferrer'')"
    "getAttribute (replaceChild ?d ?a e) (fresh ?d) (js ''class'')
       = String (class_ToString (className ?d e))"
    using look href by (simp_all add: getAttribute_def telegram_anchor_def anchor_keys)
  have cls: "namespaceOf ?d e \<noteq> Some SVG \<longrightarrow>
          (\<forall>v. getAttribute ?d e (js ''class'') = String v \<longrightarrow>
               getAttribute (replaceChild ?d ?a e) (fresh ?d) (js ''class'') = String v)
          \<and> (getAttribute ?d e (js ''class'') = Null \<longrightarrow>
               getAttribute (replaceChild ?d ?a e) (fresh ?d) (js ''class'') = String [])"
    by (simp add: attrs(4) className_def)
  have tag: "tagName (replaceChild ?d ?a e) (fresh ?d) = js ''A''"
    using look by (simp add: tagName_def telegram_anchor_def)
  have label: "textContent (replaceChild ?d ?a e) (fresh ?d) = getElementText ?d e"
    using look by (simp add: textContent_def telegram_anchor_def label_nodes_text)
  have own: "textContent ?d e \<noteq> [] \<longrightarrow>
      textContent (replaceChild ?d ?a e) (fresh ?d) = textContent ?d e"
    unfolding label by (simp add: getElementText_def or_else_def)
  have fallback: "textContent ?d e = [] \<longrightarrow>
      (\<forall>s. innerText ?d e = String s \<longrightarrow> textContent (replaceChild ?d ?a e) (fresh ?d) = s)
      \<and> (innerText ?d e = Undefined \<longrightarrow> textContent (replaceChild ?d ?a e) (fresh ?d) = [])"
    unfolding label by (simp add: getElementText_def or_else_def)
  have tok: "js ''noopener'' \<in> set (tokens [] (js ''noopener noreferrer''))"
    "js ''noreferrer'' \<in> set (tokens [] (js ''noopener noreferrer''))"
    by (simp_all add: toks)
  have after: "dom (protectedTelegram_each e w) = replaceChild ?d ?a e"
    and con: "console (protectedTelegram_each e w) = console w"
    by (simp_all add: step)
  show ?thesis
    unfolding after
    using con par tag attrs(1-3) tok cls own fallback by (intro conjI refl)
qed

theorem telegram_placeholder_anchor_witness:
  "getAttribute (dom telegram_page) 3 (js ''data-username'') = String (js ''abc_123'')
   \<and> parentNode (dom telegram_page) 3 \<noteq> NoParent
   \<and> namespaceOf (dom telegram_page) 3 \<noteq> Some SVG
   \<and> getAttribute (dom telegram_page) 3 (js ''class'') = String (js ''protected-telegram'')
   \<and> textContent (dom telegram_page) 3 \<noteq> []
   \<and> getAttribute (dom (protectedTelegram_each 3 telegram_page)) (fresh (dom telegram_page))
        (js ''href'') = String (js ''https://t.me/abc_123'')
   \<and> getAttribute (dom (protectedTelegram_each 3 telegram_page)) (fresh (dom telegram_page))
        (js ''class'') = String (js ''protected-telegram'')
   \<and> textContent (dom (protectedTelegram_each 3 telegram_page)) (fresh (dom telegram_page))
       = textContent (dom telegram_page) 3
   \<and> getAttribute (dom break_page) 3 (js ''data-username'') = String (js ''abc_123'')
   \<and> parentNode (dom break_page) 3 \<noteq> NoParent
   \<and> textContent (dom break_page) 3 = []
   \<and> innerText (dom break_page) 3 = String [0x0A]
   \<and> textContent (dom (protectedTelegram_each 3 break_page)) (fresh (dom break_page)) = [0x0A]"
proof -
  have a: "getAttribute (dom telegram_page) 3 (js ''data-username'') = String (js ''abc_123'')"
    by code_simp
  have b: "parentNode (dom telegram_page) 3 \<noteq> NoParent" by code_simp
  have c: "namespaceOf (dom telegram_page) 3 \<noteq> Some SVG" by code_simp
  have d: "getAttribute (dom telegram_page) 3 (js ''class'') = String (js ''protected-telegram'')"
    by code_simp
  have e: "textContent (dom telegram_page) 3 \<noteq> []" by code_simp
  have f: "getAttribute (dom break_page) 3 (js ''data-username'') = String (js ''abc_123'')"
    by code_simp
  have g: "parentNode (dom break_page) 3 \<noteq> NoParent" by code_simp
  have h: "textContent (dom break_page) 3 = []" by code_simp
  have i: "innerText (dom break_page) 3 = String [0x0A]" by code_simp
  show ?thesis
    using telegram_placeholder_anchor [OF a b] telegram_placeholder_anchor [OF f g]
      a b c d e f g h i
    by blast
qed

text \<open>
  Claim C4, as stated, fails: the sanitizer deletes the two angle brackets of
  \<^verbatim>\<open>john<script>\<close> and keeps the letters between them, so the address is
  \<^verbatim>\<open>johnscript@example.com\<close>. On the page of the email examples the anchor that
  replaces the span has this address in its \<^verbatim>\<open>href\<close>, not \<^verbatim>\<open>john@example.com\<close>.
\<close>

theorem script_tag_example_counterexample:
  "getAttribute (dom email_page) 4 (js ''data-user'') = String (js ''john<script>'')
   \<and> getAttribute (dom email_page) 4 (js ''data-domain'') = String (js ''example'')
   \<and> getAttribute (dom email_page) 4 (js ''data-tld'') = String (js ''com'')
   \<and> querySelectorAll (dom email_page) (ClassSelector (js ''protected-email'')) = [4, 6]
   \<and> parentElement (dom email_page) 4 = Some 3
   \<and> tagName (dom email_page) 3 = js ''P''
   \<and> lookup (dom (processProtectedEmails email_page)) 9
       = Some (Element 9 HTML (js ''A'')
                 [(js ''href'', js ''mailto:johnscript@example.com''),
                  (js ''class'', js ''protected-email''),
                  (js ''aria-label'', js ''Send email to johnscript@example.com''),
                  (js ''rel'', js ''noopener'')]
                 [Text (js ''me'')])
   \<and> getAttribute (dom (processProtectedEmails email_page)) 9 (js ''href'')
       \<noteq> String (js ''mailto:john@example.com'')"
proof -
  have before: "getAttribute (dom email_page) 4 (js ''data-user'') = String (js ''john<script>'')
     \<and> getAttribute (dom email_page) 4 (js ''data-domain'') = String (js ''example'')
     \<and> getAttribute (dom email_page) 4 (js ''data-tld'') = String (js ''com'')
     \<and> querySelectorAll (dom email_page) (ClassSelector (js ''protected-email'')) = [4, 6]
     \<and> parentElement (dom email_page) 4 = Some 3
     \<and> tagName (dom email_page) 3 = js ''P''"
    by code_simp
  have after: "lookup (dom (processProtectedEmails email_page)) 9
       = Some (Element 9 HTML (js ''A'')
                 [(js ''href'', js ''mailto:johnscript@example.com''),
                  (js ''class'', js ''protected-email''),
                  (js ''aria-label'', js ''Send email to johnscript@example.com''),
                  (js ''rel'', js ''noopener'')]
                 [Text (js ''me'')])"
    by code_simp
  have differ: "js ''mailto:johnscript@example.com'' \<noteq> js ''mailto:john@example.com''"
    by code_simp
  have "getAttribute (dom (processProtectedEmails email_page)) 9 (js ''href'')
       \<noteq> String (js ''mailto:john@example.com'')"
    using differ by (simp add: getAttribute_def after)
  then show ?thesis using before after by simp
qed

text \<open>
  Claim C4, amended. For a span of pass 1 with \<^verbatim>\<open>data-user="john<script>"\<close>,
  \<^verbatim>\<open>data-domain="example"\<close>, \<^verbatim>\<open>data-tld="com"\<close> and a parent element that is not an
  anchor, the span is replaced by an anchor whose \<^verbatim>\<open>href\<close> is
  \<^verbatim>\<open>mailto:johnscript@example.com\<close>. No markup reaches the document: the attributes
  made from the data hold letters, digits and the literal text of the script only,
  and the children of the anchor are at most one text node.
\<close>

theorem script_tag_example_amended:
  assumes "getAttribute (dom w) e (js ''data-user'') = String (js ''john<script>'')"
    and "getAttribute (dom w) e (js ''data-domain'') = String (js ''example'')"
    and "getAttribute (dom w) e (js ''data-tld'') = String (js ''com'')"
    and "parentElement (dom w) e = Some p" and "tagName (dom w) p \<noteq> js ''A''"
  shows "dom (protectedEmails_each e w) = replaceChild (dom w) (mailto_anchor (dom w) e) e
     \<and> console (protectedEmails_each e w) = console w
     \<and> lookup (dom (protectedEmails_each e w)) (fresh (dom w)) =
         Some (Element (fresh (dom w)) HTML (js ''A'')
                 [(js ''href'', js ''mailto:johnscript@example.com''),
                  (js ''class'', class_ToString (className (dom w) e)),
                  (js ''aria-label'', js ''Send email to johnscript@example.com''),
                  (js ''rel'', js ''noopener'')]
                 (label_nodes (dom w) e))
     \<and> getAttribute (dom (protectedEmails_each e w)) (fresh (dom w)) (js ''href'')
         = String (js ''mailto:johnscript@example.com'')
     \<and> parentNode (dom (protectedEmails_each e w)) (fresh (dom w)) = ElementParent p
     \<and> list_all (\<lambda>n. \<not> is_Element n) (label_nodes (dom w) e)"
proof -
  let ?d = "dom w"
  have san: "sanitized ?d e ''data-user'' = js ''johnscript''"
    "sanitized ?d e ''data-domain'' = js ''example''"
    "sanitized ?d e ''data-tld'' = js ''com''"
  proof -
    have "sanitizeEmailPart (String (js ''john<script>'')) = js ''johnscript''"
      "sanitizeEmailPart (String (js ''example'')) = js ''example''"
      "sanitizeEmailPart (String (js ''com'')) = js ''com''"
      by code_simp+
    then show "sanitized ?d e ''data-user'' = js ''johnscript''"
      "sanitized ?d e ''data-domain'' = js ''example''"
      "sanitized ?d e ''data-tld'' = js ''com''"
      using assms(1-3) by (simp_all add: sanitized_def)
  qed
  have email: "assembled_email ?d e = js ''johnscript@example.com''"
    by (simp add: assembled_email_def san) (simp add: js_def)
  have valid: "isValidEmail (String (js ''johnscript@example.com''))" by code_simp
  have ok: "email_data_ok ?d e"
    using valid email san by (simp add: email_data_ok_def email_parts_present_def js_def)
  have step: "protectedEmails_each e w = w\<lparr>dom := replaceChild ?d (mailto_anchor ?d e) e\<rparr>"
    by (rule protectedEmails_each_replaced [OF ok assms(4,5)])
  have par: "parentNode ?d e = ElementParent p"
    using assms(4) by (simp add: parentElement_def split: parent.splits)
  then obtain n where n: "lookup ?d e = Some n" using parentNode_found [of ?d e] by auto
  have anchor: "mailto_anchor ?d e =
      Element (fresh ?d) HTML (js ''A'')
        [(js ''href'', js ''mailto:johnscript@example.com''),
         (js ''class'', class_ToString (className ?d e)),
         (js ''aria-label'', js ''Send email to johnscript@example.com''),
         (js ''rel'', js ''noopener'')]
        (label_nodes ?d e)"
    by (simp add: mailto_anchor_def email) (simp add: js_def)
  have look: "lookup (replaceChild ?d (mailto_anchor ?d e) e) (fresh ?d) = Some (mailto_anchor ?d e)"
    using lookup_replaceChild [OF n] by (simp add: mailto_anchor_def)
  have par': "parentNode (replaceChild ?d (mailto_anchor ?d e) e) (fresh ?d) = ElementParent p"
    using parentNode_replaceChild [of ?d e] par by (simp add: mailto_anchor_def)
  have href: "getAttribute (replaceChild ?d (mailto_anchor ?d e) e) (fresh ?d) (js ''href'')
      = String (js ''mailto:johnscript@example.com'')"
    using look by (simp add: getAttribute_def anchor)
  have kids: "list_all (\<lambda>n. \<not> is_Element n) (label_nodes ?d e)"
    by (simp add: label_nodes_def)
  show ?thesis
    unfolding step using look par' href kids by (simp add: anchor)
qed

theorem script_tag_example_amended_witness:
  "getAttribute (dom email_page) 4 (js ''data-user'') = String (js ''john<script>'')
   \<and> getAttribute (dom email_page) 4 (js ''data-domain'') = String (js ''example'')
   \<and> getAttribute (dom email_page) 4 (js ''data-tld'') = String (js ''com'')
   \<and> parentElement (dom email_page) 4 = Some 3
   \<and> tagName (dom email_page) 3 \<noteq> js ''A''
   \<and> getAttribute (dom (protectedEmails_each 4 email_page)) (fresh (dom email_page))
        (js ''href'') = String (js ''mailto:johnscript@example.com'')"
proof -
  have a: "getAttribute (dom email_page) 4 (js ''data-user'') = String (js ''john<script>'')"
    and b: "getAttribute (dom email_page) 4 (js ''data-domain'') = String (js ''example'')"
    and c: "getAttribute (dom email_page) 4 (js ''data-tld'') = String (js ''com'')"
    and d: "parentElement (dom email_page) 4 = Some 3"
    and e: "tagName (dom email_page) 3 \<noteq> js ''A''"
    by code_simp+
  show ?thesis
    using script_tag_example_amended [OF a b c d e] a b c d e by blast
qed

section \<open>The profile statistics updater\<close>

lemma fetch_failure:
  "fetchGitHubData_try result = Inl error \<Longrightarrow> updateStats result w = Returns (fetch_failed error w)"
  by (simp add: updateStats_def fetchGitHubData_def fetch_failed_def console_error_def stats_url_def)

lemma fetch_success:
  "ok status \<Longrightarrow>
   fetchGitHubData (Fulfilled (Response status (Inr data))) w = (data, requested w)"
  by (simp add: fetchGitHubData_def fetchGitHubData_try_def requested_def stats_url_def)

lemma ToString_42: "ToString (Number 42) = Some (js ''42'')" and ToString_7: "ToString (Number 7) = Some (js ''7'')"
  by code_simp+

lemma assign_number:
  assumes "map_of ps name = Some (Number n)" and "ToString (Number n) = Some s"
  shows "assign_if_present target (Object ps) name w
         = Returns (w\<lparr>dom := set_if_present target s (dom w)\<rparr>)"
  using assms
  by (cases target) (simp_all add: assign_if_present_def textContent_assign_def set_if_present_def)

lemma updateStats_success:
  assumes "ok status" and "map_of ps (js ''followers'') = Some (Number 42)"
    and "map_of ps (js ''following'') = Some (Number 7)"
  shows "updateStats (Fulfilled (Response status (Inr (Object ps)))) w =
     (case querySelector (dom w) (ClassSelector (js ''sidebar-stats'')) of
        None \<Rightarrow> Returns (requested w)
      | Some c \<Rightarrow>
          Returns ((requested w)\<lparr>dom :=
            set_if_present (element_querySelector (dom w) c (LastOfType (js ''strong''))) (js ''7'')
              (set_if_present (element_querySelector (dom w) c (FirstOfType (js ''strong'')))
                 (js ''42'') (dom w))\<rparr>))"
proof -
  have [simp]: "dom (requested w) = dom w" by (simp add: requested_def)
  show ?thesis
    by (simp add: updateStats_def fetch_success [OF assms(1)] Let_def
        assign_number [OF assms(2) ToString_42] assign_number [OF assms(3) ToString_7]
        split: option.splits)
qed

text \<open>
  Claim C5. When the request fails, by a rejected \<^verbatim>\<open>fetch\<close>, a status outside
  200..299 (500 for one) or a body that \<^verbatim>\<open>json()\<close> rejects, \<^verbatim>\<open>updateStats\<close> returns
  without an exception, the document is the one it started with, one error entry is
  added to the console and exactly one request has been sent.
\<close>

theorem failed_fetch_changes_nothing:
  "updateStats (Rejected error) w = Returns (fetch_failed error w)
   \<and> (\<not> ok status \<longrightarrow>
        updateStats (Fulfilled (Response status body)) w
          = Returns (fetch_failed (Error (js ''Failed to fetch GitHub data'')) w))
   \<and> updateStats (Fulfilled (Response 500 body)) w
        = Returns (fetch_failed (Error (js ''Failed to fetch GitHub data'')) w)
   \<and> (ok status \<longrightarrow>
        updateStats (Fulfilled (Response status (Inl error))) w = Returns (fetch_failed error w))
   \<and> dom (fetch_failed error w) = dom w
   \<and> requests (fetch_failed error w) = requests w @ [stats_url]
   \<and> console (fetch_failed error w)
        = console w @ [(Err, [Str (js ''Error fetching GitHub data:''), Exn error])]"
proof -
  have "\<not> ok 500" by (simp add: ok_def)
  then show ?thesis
    by (simp add: fetch_failure fetchGitHubData_try_def) (simp add: fetch_failed_def)
qed

theorem failed_fetch_changes_nothing_witness:
  "\<not> ok 404
   \<and> updateStats (Fulfilled (Response 404 (Inr profile))) counters_page
       = Returns (fetch_failed (Error (js ''Failed to fetch GitHub data'')) counters_page)
   \<and> ok 200
   \<and> updateStats (Fulfilled (Response 200 (Inl SyntaxError))) counters_page
       = Returns (fetch_failed SyntaxError counters_page)
   \<and> dom (fetch_failed SyntaxError counters_page) = dom counters_page"
proof -
  have "\<not> ok 404" "ok 200" by (simp_all add: ok_def)
  then show ?thesis
    using failed_fetch_changes_nothing [of SyntaxError counters_page 404 "Inr profile"]
      failed_fetch_changes_nothing [of SyntaxError counters_page 200 "Inr profile"]
    by simp
qed

text \<open>
  Claim C6, as stated, fails: in a container whose two counters each sit in a link
  of their own, \<^verbatim>\<open>strong:first-of-type\<close> and \<^verbatim>\<open>strong:last-of-type\<close> select the
  same element, the first counter. Both are present, yet the text of the first
  counter ends as \<^verbatim>\<open>"7"\<close> and the second counter keeps its text.
\<close>

theorem stats_same_element_counterexample:
  "querySelector (dom stats_page) (ClassSelector (js ''sidebar-stats'')) = Some 3
   \<and> element_querySelector (dom stats_page) 3 (FirstOfType (js ''strong'')) = Some 5
   \<and> element_querySelector (dom stats_page) 3 (LastOfType (js ''strong'')) = Some 5
   \<and> text_after (updateStats (Fulfilled (Response 200 (Inr profile))) stats_page) 5
       = Some (js ''7'')
   \<and> text_after (updateStats (Fulfilled (Response 200 (Inr profile))) stats_page) 5
       \<noteq> Some (js ''42'')
   \<and> text_after (updateStats (Fulfilled (Response 200 (Inr profile))) stats_page) 7
       = Some (js ''0'')"
  by code_simp

text \<open>
  Claim C6, amended. After a successful response whose body has
  \<^verbatim>\<open>followers: 42\<close> and \<^verbatim>\<open>following: 7\<close>, when the container is present and the two
  selectors give two different elements of a document in which every identity is
  unique, the text of the first is \<^verbatim>\<open>"42"\<close> and the text of the second is
  \<^verbatim>\<open>"7"\<close>. Without the container the run returns with the document unchanged; with
  it, each target that is absent is skipped, and the run returns in every case.
\<close>

theorem stats_written_to_distinct_targets:
  assumes "ok status" and "map_of ps (js ''followers'') = Some (Number 42)"
    and "map_of ps (js ''following'') = Some (Number 7)"
  shows "(well_formed (dom w)
          \<and> querySelector (dom w) (ClassSelector (js ''sidebar-stats'')) = Some c
          \<and> element_querySelector (dom w) c (FirstOfType (js ''strong'')) = Some f
          \<and> element_querySelector (dom w) c (LastOfType (js ''strong'')) = Some l
          \<and> f \<noteq> l \<longrightarrow>
          text_after (updateStats (Fulfilled (Response status (Inr (Object ps)))) w) f
            = Some (js ''42'')
          \<and> text_after (updateStats (Fulfilled (Response status (Inr (Object ps)))) w) l
            = Some (js ''7''))
     \<and> (querySelector (dom w) (ClassSelector (js ''sidebar-stats'')) = None \<longrightarrow>
          updateStats (Fulfilled (Response status (Inr (Object ps)))) w = Returns (requested w))
     \<and> (querySelector (dom w) (ClassSelector (js ''sidebar-stats'')) = Some c \<longrightarrow>
          updateStats (Fulfilled (Response status (Inr (Object ps)))) w =
            Returns ((requested w)\<lparr>dom :=
              set_if_present (element_querySelector (dom w) c (LastOfType (js ''strong'')))
                (js ''7'')
                (set_if_present (element_querySelector (dom w) c (FirstOfType (js ''strong'')))
                   (js ''42'') (dom w))\<rparr>))
     \<and> set_if_present None (js ''42'') (dom w) = dom w
     \<and> dom (requested w) = dom w \<and> console (requested w) = console w"
proof -
  note run = updateStats_success [OF assms, of w]
  have texts: "text_after (updateStats (Fulfilled (Response status (Inr (Object ps)))) w) f
            = Some (js ''42'')
          \<and> text_after (updateStats (Fulfilled (Response status (Inr (Object ps)))) w) l
            = Some (js ''7'')"
    if wf: "well_formed (dom w)"
      and c: "querySelector (dom w) (ClassSelector (js ''sidebar-stats'')) = Some c"
      and f: "element_querySelector (dom w) c (FirstOfType (js ''strong'')) = Some f"
      and l: "element_querySelector (dom w) c (LastOfType (js ''strong'')) = Some l"
      and ne: "f \<noteq> l"
  proof -
    obtain nf where nf: "lookup (dom w) f = Some nf"
      using element_querySelector_found [OF f] by blast
    obtain nl where nl: "lookup (dom w) l = Some nl"
      using element_querySelector_found [OF l] by blast
    show ?thesis
      using two_texts [OF wf nf nl ne, of "js ''42''" "js ''7''"]
      by (simp add: run c f l text_after_def set_if_present_def)
  qed
  show ?thesis
    using texts by (simp add: run set_if_present_def requested_def)
qed

theorem stats_written_to_distinct_targets_witness:
  "ok 200 \<and> well_formed (dom counters_page)
   \<and> querySelector (dom counters_page) (ClassSelector (js ''sidebar-stats'')) = Some 3
   \<and> element_querySelector (dom counters_page) 3 (FirstOfType (js ''strong'')) = Some 4
   \<and> element_querySelector (dom counters_page) 3 (LastOfType (js ''strong'')) = Some 5
   \<and> text_after (updateStats (Fulfilled (Response 200 (Inr profile))) counters_page) 4
       = Some (js ''42'')
   \<and> text_after (updateStats (Fulfilled (Response 200 (Inr profile))) counters_page) 5
       = Some (js ''7'')
   \<and> querySelector (dom root_page) (ClassSelector (js ''sidebar-stats'')) = None
   \<and> updateStats (Fulfilled (Response 200 (Inr profile))) root_page = Returns (requested root_page)"
proof -
  have a: "ok 200" by (simp add: ok_def)
  have b: "map_of [(js ''followers'', Number 42), (js ''following'', Number 7)] (js ''followers'')
           = Some (Number 42)"
    and c: "map_of [(js ''followers'', Number 42), (js ''following'', Number 7)] (js ''following'')
           = Some (Number 7)"
    by (simp_all add: js_def cu_def)
  have d: "well_formed (dom counters_page)"
    "querySelector (dom counters_page) (ClassSelector (js ''sidebar-stats'')) = Some 3"
    "element_querySelector (dom counters_page) 3 (FirstOfType (js ''strong'')) = Some 4"
    "element_querySelector (dom counters_page) 3 (LastOfType (js ''strong'')) = Some 5"
    "querySelector (dom root_page) (ClassSelector (js ''sidebar-stats'')) = None"
    by code_simp+
  have e: "(4::nat) \<noteq> 5" by simp
  show ?thesis
    unfolding profile_def
    using stats_written_to_distinct_targets [OF a b c, of counters_page 3 4 5]
      stats_written_to_distinct_targets [OF a b c, of root_page 3 4 5] a d e
    by blast
qed

end
